theory Spec2Isabelle
  imports Main "HOL-Library.Word" "HOL-Library.Signed_Division"
begin

unbundle bit_operations_syntax

section \<open>Data model of sim.c\<close>

text \<open>
  Conventions of the embedding.
  \<^item> \<open>uint32_t\<close> and \<open>int32_t\<close> are \<open>32 word\<close> (the same bits; \<open>sint\<close> gives the signed
    reading where the source compares or shifts signed values), \<open>uint16_t\<close> is \<open>16 word\<close>,
    \<open>uint8_t\<close> is \<open>8 word\<close>. The C \<open>int\<close> variables that only carry a MESI state read from
    the \<open>uint8_t\<close> array or one of the MESI constants are \<open>8 word\<close> as well.
  \<^item> Every other C \<open>int\<close> is an Isabelle \<open>int\<close>; \<open>%\<close> is the truncating \<open>smod\<close>.
  \<^item> A C array is a total function from its index; arrays indexed by a C \<open>int\<close> are
    functions from \<open>int\<close>, main memory (indexed by a masked \<open>uint32_t\<close>) is a function from
    \<open>32 word\<close>. The source never indexes out of range (indices are masked), so no
    out-of-range case arises.
  \<^item> Struct fields keep their names; where two structs share a field name the field is
    prefixed (\<open>f_\<close>, \<open>d_\<close>, \<open>e_\<close>, \<open>m_\<close>, \<open>w_\<close> for the five latches, \<open>r_\<close> for a bus request,
    \<open>c\<close> for the core's \<open>pc\<close> and \<open>done\<close>).
\<close>

type_synonym u32 = "32 word"
type_synonym i32 = "32 word"

definition NUM_CORES :: int where "NUM_CORES = 4"
definition IMEM_SIZE :: int where "IMEM_SIZE = 1024"
definition MAIN_MEM_WORDS :: u32 where "MAIN_MEM_WORDS = push_bit 20 1"

definition BLOCK_WORDS :: int where "BLOCK_WORDS = 8"
definition OFFSET_BITS :: nat where "OFFSET_BITS = 3"
definition INDEX_BITS :: nat where "INDEX_BITS = 6"
definition TAG_BITS :: nat where "TAG_BITS = 20 - OFFSET_BITS - INDEX_BITS"
definition INDEX_MASK :: u32 where "INDEX_MASK = push_bit INDEX_BITS 1 - 1"
definition OFFSET_MASK :: u32 where "OFFSET_MASK = push_bit OFFSET_BITS 1 - 1"
definition TAG_MASK :: u32 where "TAG_MASK = push_bit TAG_BITS 1 - 1"

definition BUS_NONE :: int where "BUS_NONE = 0"
definition BUS_RD :: int where "BUS_RD = 1"
definition BUS_RDX :: int where "BUS_RDX = 2"
definition BUS_FLUSH :: int where "BUS_FLUSH = 3"

definition MESI_I :: "8 word" where "MESI_I = 0"
definition MESI_S :: "8 word" where "MESI_S = 1"
definition MESI_E :: "8 word" where "MESI_E = 2"
definition MESI_M :: "8 word" where "MESI_M = 3"

definition OP_ADD :: int where "OP_ADD = 0"
definition OP_SUB :: int where "OP_SUB = 1"
definition OP_AND :: int where "OP_AND = 2"
definition OP_OR :: int where "OP_OR = 3"
definition OP_XOR :: int where "OP_XOR = 4"
definition OP_MUL :: int where "OP_MUL = 5"
definition OP_SLL :: int where "OP_SLL = 6"
definition OP_SRA :: int where "OP_SRA = 7"
definition OP_SRL :: int where "OP_SRL = 8"
definition OP_BEQ :: int where "OP_BEQ = 9"
definition OP_BNE :: int where "OP_BNE = 10"
definition OP_BLT :: int where "OP_BLT = 11"
definition OP_BGT :: int where "OP_BGT = 12"
definition OP_BLE :: int where "OP_BLE = 13"
definition OP_BGE :: int where "OP_BGE = 14"
definition OP_JAL :: int where "OP_JAL = 15"
definition OP_LW :: int where "OP_LW = 16"
definition OP_SW :: int where "OP_SW = 17"
definition OP_HALT :: int where "OP_HALT = 20"

record Instruction =
  raw :: u32
  op :: int
  rd :: int
  rs :: int
  rt :: int
  imm :: i32
  pc :: int

record FetchStage =
  f_valid :: bool
  f_inst :: Instruction

record DecodeStage =
  d_valid :: bool
  d_inst :: Instruction

record ExecStage =
  e_valid :: bool
  e_inst :: Instruction
  rs_val :: i32
  rt_val :: i32
  rd_val :: i32

record MemStage =
  m_valid :: bool
  m_inst :: Instruction
  alu_result :: u32
  mem_addr :: u32
  store_data :: u32
  is_load :: bool
  is_store :: bool
  miss :: bool
  waiting :: bool
  request_queued :: bool
  load_value :: u32

record WbStage =
  w_valid :: bool
  w_inst :: Instruction
  w_value :: u32

record Cache =
  data :: "int \<Rightarrow> u32"
  tag :: "int \<Rightarrow> 16 word"
  state :: "int \<Rightarrow> 8 word"

record Stats =
  cycles :: u32
  instructions :: u32
  read_hit :: u32
  write_hit :: u32
  read_miss :: u32
  write_miss :: u32
  decode_stall :: u32
  mem_stall :: u32

record Core =
  core_id :: int
  imem :: "int \<Rightarrow> u32"
  regs :: "int \<Rightarrow> u32"
  cpc :: int
  redirect_pending :: bool
  redirect_pc :: int
  stop_fetch :: bool
  halted :: bool
  cdone :: bool
  fetch :: FetchStage
  decode :: DecodeStage
  exec :: ExecStage
  mem :: MemStage
  wb :: WbStage
  cache :: Cache
  stats :: Stats

record BusRequest =
  active :: bool
  r_cmd :: int
  r_addr :: u32
  r_origin :: int

record BusState =
  phase :: int
  cmd :: int
  origin :: int
  addr :: u32
  shared :: int
  provider :: int
  block :: "int \<Rightarrow> u32"
  delay :: int
  index :: int
  bus_cmd_out :: int
  bus_origid_out :: int
  bus_addr_out :: u32
  bus_data_out :: u32
  bus_shared_out :: int

text \<open>The local variables of \<open>simulate\<close> that persist across cycles.\<close>

record Sim =
  cores :: "int \<Rightarrow> Core"
  requests :: "int \<Rightarrow> BusRequest"
  bus :: BusState
  rr_next :: int
  main_mem :: "u32 \<Rightarrow> u32"

section \<open>Utility helpers\<close>

definition sign_extend :: "u32 \<Rightarrow> nat \<Rightarrow> i32" where
  "sign_extend val bits =
     (let mask = push_bit bits 1 - 1;
          val = val AND mask
      in if val AND push_bit (bits - 1) 1 \<noteq> 0 then val OR NOT mask else val)"

definition decode_inst :: "u32 \<Rightarrow> int \<Rightarrow> Instruction" where
  "decode_inst w p =
     \<lparr> raw = w,
       op = uint (drop_bit 24 w AND 0xFF),
       rd = uint (drop_bit 20 w AND 0xF),
       rs = uint (drop_bit 16 w AND 0xF),
       rt = uint (drop_bit 12 w AND 0xF),
       imm = sign_extend (w AND 0xFFF) 12,
       pc = p \<rparr>"

definition dest_reg :: "Instruction \<Rightarrow> int" where
  "dest_reg inst =
     (if op inst = OP_HALT \<or> op inst = OP_SW then -1
      else if op inst \<ge> OP_BEQ \<and> op inst \<le> OP_BGE then -1
      else if op inst = OP_JAL then 15
      else if rd inst \<le> 1 then -1
      else rd inst)"

text \<open>\<open>source_regs\<close> fills \<open>out[0..count)\<close>; the model returns that prefix as a list.\<close>

definition source_regs :: "Instruction \<Rightarrow> int list" where
  "source_regs inst =
     (if op inst \<in> {OP_ADD, OP_SUB, OP_AND, OP_OR, OP_XOR, OP_MUL, OP_SLL, OP_SRA, OP_SRL, OP_LW}
        then [rs inst, rt inst]
      else if op inst = OP_SW then [rd inst, rs inst, rt inst]
      else if op inst \<in> {OP_BEQ, OP_BNE, OP_BLT, OP_BGT, OP_BLE, OP_BGE}
        then [rs inst, rt inst, rd inst]
      else if op inst = OP_JAL then [rd inst]
      else [])"

section \<open>Cache helpers\<close>

definition cache_index :: "u32 \<Rightarrow> int" where
  "cache_index a = uint (drop_bit OFFSET_BITS a AND INDEX_MASK)"

definition cache_tag :: "u32 \<Rightarrow> u32" where
  "cache_tag a = drop_bit (OFFSET_BITS + INDEX_BITS) a AND TAG_MASK"

definition line_base_addr :: "u32 \<Rightarrow> int \<Rightarrow> u32" where
  "line_base_addr t idx =
     push_bit (OFFSET_BITS + INDEX_BITS) (t AND TAG_MASK) OR push_bit OFFSET_BITS (word_of_int idx)"

text \<open>The expression \<open>addr & ~(BLOCK_WORDS - 1)\<close>, written out at each of its uses in sim.c.\<close>

definition block_base :: "u32 \<Rightarrow> u32" where
  "block_base a = a AND NOT (word_of_int (BLOCK_WORDS - 1))"

text \<open>The loops \<open>for (i = 0; i < BLOCK_WORDS; i++)\<close> run over this list.\<close>

definition block_range :: "int list" where
  "block_range = [0, 1, 2, 3, 4, 5, 6, 7]"

definition writeback_line :: "Cache \<Rightarrow> int \<Rightarrow> (u32 \<Rightarrow> u32) \<Rightarrow> (u32 \<Rightarrow> u32)" where
  "writeback_line c idx m =
     (if state c idx \<noteq> MESI_M then m
      else let base = line_base_addr (ucast (tag c idx)) idx
           in fold (\<lambda>i m'. m'((base + word_of_int i) AND (MAIN_MEM_WORDS - 1)
                                 := data c (idx * BLOCK_WORDS + i)))
                   block_range m)"

definition fill_cache_line ::
  "Cache \<Rightarrow> int \<Rightarrow> u32 \<Rightarrow> (int \<Rightarrow> u32) \<Rightarrow> 8 word \<Rightarrow> (u32 \<Rightarrow> u32) \<Rightarrow> Cache \<times> (u32 \<Rightarrow> u32)" where
  "fill_cache_line c idx t blk new_state m =
     (let m1 = writeback_line c idx m;
          d1 = fold (\<lambda>i d. d(idx * BLOCK_WORDS + i := blk i)) block_range (data c)
      in (c\<lparr>data := d1, tag := (tag c)(idx := ucast (t AND TAG_MASK)),
             state := (state c)(idx := new_state)\<rparr>, m1))"

text \<open>
  \<open>cache_lookup\<close> returns the hit flag and the value of \<open>*state_out\<close> afterwards
  (\<open>st_in\<close> is its value before the call; every caller passes a non-null pointer).
\<close>

definition cache_lookup :: "Cache \<Rightarrow> u32 \<Rightarrow> 8 word \<Rightarrow> bool \<times> 8 word" where
  "cache_lookup c a st_in =
     (let idx = cache_index a; t = cache_tag a
      in if state c idx \<noteq> MESI_I \<and> ucast (tag c idx) = t then (True, state c idx)
         else (False, st_in))"

definition cache_read :: "Cache \<Rightarrow> u32 \<Rightarrow> u32" where
  "cache_read c a =
     (let idx = cache_index a; offset = uint (a AND OFFSET_MASK)
      in data c (idx * BLOCK_WORDS + offset))"

definition cache_write :: "Cache \<Rightarrow> u32 \<Rightarrow> u32 \<Rightarrow> Cache" where
  "cache_write c a v =
     (let idx = cache_index a; offset = uint (a AND OFFSET_MASK)
      in c\<lparr>data := (data c)(idx * BLOCK_WORDS + offset := v)\<rparr>)"

section \<open>Bus helpers\<close>

definition reset_bus_out :: "BusState \<Rightarrow> BusState" where
  "reset_bus_out b =
     b\<lparr>bus_cmd_out := BUS_NONE, bus_origid_out := 0, bus_addr_out := 0,
       bus_data_out := 0, bus_shared_out := 0\<rparr>"

text \<open>
  \<open>complete_transaction\<close> mutates the core array and main memory; the model returns both.
\<close>

definition complete_transaction ::
  "BusState \<Rightarrow> (int \<Rightarrow> Core) \<Rightarrow> (u32 \<Rightarrow> u32) \<Rightarrow> (int \<Rightarrow> Core) \<times> (u32 \<Rightarrow> u32)" where
  "complete_transaction b cs m =
     (if origin b < 0 \<or> origin b \<ge> NUM_CORES then (cs, m)
      else
        let base = block_base (addr b);
            m1 = fold (\<lambda>i m'. m'((base + word_of_int i) AND (MAIN_MEM_WORDS - 1) := block b i))
                      block_range m;
            c = cs (origin b);
            idx = cache_index base;
            t = cache_tag base;
            new_state = (if cmd b = BUS_RD then (if shared b \<noteq> 0 then MESI_S else MESI_E)
                         else MESI_M);
            (ca, m2) = fill_cache_line (cache c) idx t (block b) new_state m1;
            c1 = c\<lparr>cache := ca\<rparr>;
            c2 = (if m_valid (mem c1) \<and> waiting (mem c1)
                  then c1\<lparr>mem := (mem c1)\<lparr>waiting := False\<rparr>\<rparr> else c1)
        in (cs(origin b := c2), m2))"

text \<open>
  \<open>apply_snoop\<close> updates one cache and the three out-parameters \<open>*shared\<close>, \<open>*provider\<close>
  and \<open>provider_block\<close>, here the triple \<open>(sh, pr, pb)\<close>.
\<close>

definition apply_snoop ::
  "Cache \<Rightarrow> int \<Rightarrow> int \<Rightarrow> int \<Rightarrow> u32 \<Rightarrow> int \<times> int \<times> (int \<Rightarrow> u32)
     \<Rightarrow> Cache \<times> int \<times> int \<times> (int \<Rightarrow> u32)" where
  "apply_snoop ca cache_id orig c a out =
     (case out of (sh, pr, pb) \<Rightarrow>
      if cache_id = orig then (ca, sh, pr, pb)
      else
        let idx = cache_index a; t = cache_tag a; st = state ca idx
        in if st = MESI_I \<or> ucast (tag ca idx) \<noteq> t then (ca, sh, pr, pb)
           else if st = MESI_M then
             (ca\<lparr>state := (state ca)(idx := (if c = BUS_RD then MESI_S else MESI_I))\<rparr>,
              1, cache_id,
              fold (\<lambda>i f. f(i := data ca (idx * BLOCK_WORDS + i))) block_range pb)
           else if st = MESI_E then
             (ca\<lparr>state := (state ca)(idx := (if c = BUS_RD then MESI_S else MESI_I))\<rparr>, 1, pr, pb)
           else if st = MESI_S \<and> c = BUS_RDX then
             (ca\<lparr>state := (state ca)(idx := MESI_I)\<rparr>, 1, pr, pb)
           else (ca, 1, pr, pb))"

text \<open>The loops \<open>for (i = 0; i < NUM_CORES; i++)\<close> run over this list.\<close>

definition core_range :: "int list" where
  "core_range = [0, 1, 2, 3]"

definition snoop_iter ::
  "BusRequest \<Rightarrow> int \<Rightarrow> (int \<Rightarrow> Core) \<times> int \<times> int \<times> (int \<Rightarrow> u32)
     \<Rightarrow> (int \<Rightarrow> Core) \<times> int \<times> int \<times> (int \<Rightarrow> u32)" where
  "snoop_iter req i acc =
     (case acc of (cs, out) \<Rightarrow>
        (case apply_snoop (cache (cs i)) i (r_origin req) (r_cmd req) (r_addr req) out of
           (ca, out') \<Rightarrow> (cs(i := (cs i)\<lparr>cache := ca\<rparr>), out')))"

definition snoop_all ::
  "BusRequest \<Rightarrow> (int \<Rightarrow> Core) \<Rightarrow> (int \<Rightarrow> Core) \<times> int \<times> int \<times> (int \<Rightarrow> u32)" where
  "snoop_all req cs = fold (snoop_iter req) core_range (cs, 0, -1, (\<lambda>_. 0))"

definition start_bus_transaction ::
  "BusState \<Rightarrow> BusRequest \<Rightarrow> (int \<Rightarrow> Core) \<Rightarrow> (u32 \<Rightarrow> u32) \<Rightarrow> BusState \<times> (int \<Rightarrow> Core)" where
  "start_bus_transaction b req cs m =
     (case snoop_all req cs of (cs1, sh, pr, pb) \<Rightarrow>
        let b1 = b\<lparr>cmd := r_cmd req, origin := r_origin req, addr := r_addr req,
                   shared := sh, provider := pr, index := 0\<rparr>;
            b2 = (if provider b1 = -1 then
                    let base = block_base (r_addr req)
                    in b1\<lparr>provider := 4,
                          block := fold (\<lambda>i f. f(i := m ((base + word_of_int i)
                                                          AND (MAIN_MEM_WORDS - 1))))
                                        block_range (block b1),
                          delay := 16, phase := 1\<rparr>
                  else
                    b1\<lparr>block := fold (\<lambda>i f. f(i := pb i)) block_range (block b1),
                       delay := 0, phase := 1, index := 0\<rparr>);
            b3 = reset_bus_out b2
        in (b3\<lparr>bus_cmd_out := r_cmd req, bus_origid_out := r_origin req,
                bus_addr_out := r_addr req AND (push_bit 20 1 - 1),
                bus_shared_out := shared b3\<rparr>, cs1))"

section \<open>Main simulation logic\<close>

definition perform_compare :: "Instruction \<Rightarrow> i32 \<Rightarrow> i32 \<Rightarrow> bool" where
  "perform_compare inst a b =
     (if op inst = OP_BEQ then a = b
      else if op inst = OP_BNE then a \<noteq> b
      else if op inst = OP_BLT then sint a < sint b
      else if op inst = OP_BGT then sint a > sint b
      else if op inst = OP_BLE then sint a \<le> sint b
      else if op inst = OP_BGE then sint a \<ge> sint b
      else False)"

text \<open>
  Signed \<open>+\<close>, \<open>-\<close> and \<open>*\<close> on \<open>int32_t\<close> are taken to wrap around (two's complement),
  as the conversion of the result to \<open>uint32_t\<close> suggests.
\<close>

definition perform_alu :: "Instruction \<Rightarrow> i32 \<Rightarrow> i32 \<Rightarrow> u32" where
  "perform_alu inst a b =
     (let shift = unat (b AND 0x1F)
      in if op inst = OP_ADD then a + b
         else if op inst = OP_SUB then a - b
         else if op inst = OP_AND then a AND b
         else if op inst = OP_OR then a OR b
         else if op inst = OP_XOR then a XOR b
         else if op inst = OP_MUL then a * b
         else if op inst = OP_SLL then push_bit shift a
         else if op inst = OP_SRA then signed_drop_bit shift a
         else if op inst = OP_SRL then drop_bit shift a
         else if op inst = OP_JAL then word_of_int ((pc inst + 1) AND 0x3FF)
         else 0)"

subsection \<open>Writeback commit (one iteration of the first per-core loop)\<close>

definition wb_commit :: "Core \<Rightarrow> Core" where
  "wb_commit c =
     (if w_valid (wb c) then
        let dst = dest_reg (w_inst (wb c));
            c1 = (if dst \<ge> 0 then c\<lparr>regs := (regs c)(dst := w_value (wb c))\<rparr> else c);
            c2 = c1\<lparr>stats := (stats c1)\<lparr>instructions := instructions (stats c1) + 1\<rparr>\<rparr>
        in if op (w_inst (wb c)) = OP_HALT then c2\<lparr>halted := True\<rparr> else c2
      else c)"

subsection \<open>Pipeline advance (one iteration of the second per-core loop)\<close>

text \<open>The five shadow latches \<open>next_wb\<close> ... \<open>next_fetch\<close> of the loop body.\<close>

record Next =
  next_wb :: WbStage
  next_mem :: MemStage
  next_exec :: ExecStage
  next_decode :: DecodeStage
  next_fetch :: FetchStage

definition zero_inst :: Instruction where
  "zero_inst = \<lparr> raw = 0, op = 0, rd = 0, rs = 0, rt = 0, imm = 0, pc = 0 \<rparr>"

definition init_next :: "Core \<Rightarrow> Next" where
  "init_next c =
     \<lparr> next_wb = \<lparr> w_valid = False, w_inst = zero_inst, w_value = 0 \<rparr>,
       next_mem = mem c, next_exec = exec c, next_decode = decode c, next_fetch = fetch c \<rparr>"

definition bump_cycles :: "Core \<Rightarrow> Core" where
  "bump_cycles c =
     (if \<not> cdone c then c\<lparr>stats := (stats c)\<lparr>cycles := cycles (stats c) + 1\<rparr>\<rparr> else c)"

text \<open>
  MEM stage. Iteration \<open>i\<close> of the loop touches only \<open>requests[i]\<close>, passed and returned as
  \<open>req\<close>. The result carries the core, the shadow latches, the request slot and
  \<open>mem_advances\<close>.
\<close>

definition count_access :: "Core \<Rightarrow> bool \<Rightarrow> 8 word \<Rightarrow> Core" where
  "count_access c hit st =
     (let inst = m_inst (mem c); s = stats c
      in if hit \<and> st \<noteq> MESI_I then
           (if op inst = OP_LW then c\<lparr>stats := s\<lparr>read_hit := read_hit s + 1\<rparr>\<rparr>
            else c\<lparr>stats := s\<lparr>write_hit := write_hit s + 1\<rparr>\<rparr>)
         else
           (if op inst = OP_LW then c\<lparr>stats := s\<lparr>read_miss := read_miss s + 1\<rparr>\<rparr>
            else c\<lparr>stats := s\<lparr>write_miss := write_miss s + 1\<rparr>\<rparr>))"

definition mem_stage :: "int \<Rightarrow> Core \<Rightarrow> Next \<Rightarrow> BusRequest \<Rightarrow> Core \<times> Next \<times> BusRequest \<times> bool" where
  "mem_stage i c nx req =
     (if m_valid (mem c) then
        if waiting (mem c) then
          (c\<lparr>stats := (stats c)\<lparr>mem_stall := mem_stall (stats c) + 1\<rparr>\<rparr>, nx, req, False)
        else
          let inst = m_inst (mem c) in
          if op inst = OP_LW \<or> op inst = OP_SW then
            let counted = miss (mem c) in
            case cache_lookup (cache c) (mem_addr (mem c)) MESI_I of (hit, st) \<Rightarrow>
            let c1 = (if \<not> counted then count_access c hit st else c) in
            if \<not> hit \<or> st = MESI_I \<or> (op inst = OP_SW \<and> st = MESI_S) then
              let (c2, req2) =
                    (if \<not> request_queued (mem c1) then
                       (c1\<lparr>mem := (mem c1)\<lparr>request_queued := True\<rparr>\<rparr>,
                        req\<lparr>active := True,
                            r_cmd := (if op inst = OP_LW then BUS_RD else BUS_RDX),
                            r_addr := mem_addr (mem c1) AND (push_bit 20 1 - 1),
                            r_origin := i\<rparr>)
                     else (c1, req));
                  nx1 = nx\<lparr>next_mem := (next_mem nx)\<lparr>miss := True, waiting := True\<rparr>\<rparr>
              in (c2\<lparr>stats := (stats c2)\<lparr>mem_stall := mem_stall (stats c2) + 1\<rparr>\<rparr>,
                  nx1, req2, False)
            else if op inst = OP_LW then
              let v = cache_read (cache c1) (mem_addr (mem c1))
              in (c1,
                  nx\<lparr>next_mem := (next_mem nx)\<lparr>load_value := v, m_valid := False\<rparr>,
                     next_wb := \<lparr> w_valid = True, w_inst = inst, w_value = v \<rparr>\<rparr>,
                  req, True)
            else
              let ca = cache_write (cache c1) (mem_addr (mem c1)) (store_data (mem c1));
                  ca1 = (if st = MESI_E
                         then ca\<lparr>state := (state ca)(cache_index (mem_addr (mem c1)) := MESI_M)\<rparr>
                         else ca)
              in (c1\<lparr>cache := ca1\<rparr>,
                  nx\<lparr>next_mem := (next_mem nx)\<lparr>m_valid := False\<rparr>,
                     next_wb := \<lparr> w_valid = True, w_inst = inst, w_value = 0 \<rparr>\<rparr>,
                  req, True)
          else
            (c,
             nx\<lparr>next_mem := (next_mem nx)\<lparr>m_valid := False\<rparr>,
                next_wb := \<lparr> w_valid = True, w_inst = inst, w_value = alu_result (mem c) \<rparr>\<rparr>,
             req, True)
      else (c, nx, req, False))"

text \<open>EXEC stage: returns the shadow latches and \<open>exec_free_next\<close>.\<close>

definition exec_stage :: "Core \<Rightarrow> Next \<Rightarrow> bool \<Rightarrow> Next \<times> bool" where
  "exec_stage c nx mem_advances =
     (let mem_free_next = (\<not> m_valid (mem c) \<or> mem_advances);
          exec_can_move = (e_valid (exec c) \<and> mem_free_next);
          exec_free_next = (\<not> e_valid (exec c) \<or> exec_can_move)
      in if e_valid (exec c) \<and> exec_can_move then
           let inst = e_inst (exec c);
               nm = (next_mem nx)\<lparr>m_valid := True, m_inst := inst, waiting := False,
                                  request_queued := False, miss := False, load_value := 0,
                                  alu_result := 0\<rparr>;
               nm1 = (if op inst = OP_LW \<or> op inst = OP_SW then
                        nm\<lparr>mem_addr := (rs_val (exec c) + rt_val (exec c)) AND (push_bit 20 1 - 1),
                           store_data := rd_val (exec c),
                           is_load := (op inst = OP_LW),
                           is_store := (op inst = OP_SW)\<rparr>
                      else
                        nm\<lparr>is_load := False, is_store := False,
                           alu_result := perform_alu inst (rs_val (exec c)) (rt_val (exec c))\<rparr>)
           in (nx\<lparr>next_exec := (next_exec nx)\<lparr>e_valid := False\<rparr>, next_mem := nm1\<rparr>,
               exec_free_next)
         else (nx, exec_free_next))"

text \<open>
  DECODE stage, hazard detection. \<open>hazard_iter\<close> is the body of the loop over the source
  registers, with \<open>decode_stall\<close> as the accumulator.
\<close>

definition hazard_iter :: "Core \<Rightarrow> int \<Rightarrow> bool \<Rightarrow> bool" where
  "hazard_iter c reg stall =
     (if reg \<le> 1 then stall
      else
        let s1 = (if e_valid (exec c) \<and> dest_reg (e_inst (exec c)) = reg then True else stall);
            s2 = (if m_valid (mem c) \<and> dest_reg (m_inst (mem c)) = reg then True else s1)
        in if w_valid (wb c) \<and> dest_reg (w_inst (wb c)) = reg then True else s2)"

definition decode_hazard :: "Core \<Rightarrow> bool \<Rightarrow> Core \<times> bool" where
  "decode_hazard c exec_free_next =
     (if d_valid (decode c) then
        let c1 = c\<lparr>regs := (regs c)(1 := imm (d_inst (decode c)))\<rparr>;
            st = fold (hazard_iter c1) (source_regs (d_inst (decode c1))) False;
            st1 = (if \<not> exec_free_next then True else st)
        in (if st1 then c1\<lparr>stats := (stats c1)\<lparr>decode_stall := decode_stall (stats c1) + 1\<rparr>\<rparr>
            else c1, st1)
      else (c, False))"

text \<open>The block guarded by \<open>decode_moves\<close>, and the release of the Decode latch.\<close>

definition decode_move :: "Core \<Rightarrow> Next \<Rightarrow> bool \<Rightarrow> bool \<Rightarrow> Core \<times> Next" where
  "decode_move c nx decode_moves stall =
     (if decode_moves then
        let inst = d_inst (decode c);
            ne = \<lparr> e_valid = True, e_inst = inst, rs_val = regs c (rs inst),
                   rt_val = regs c (rt inst), rd_val = regs c (rd inst) \<rparr>;
            c1 = (if op inst \<ge> OP_BEQ \<and> op inst \<le> OP_BGE then
                    (if perform_compare inst (rs_val ne) (rt_val ne)
                     then c\<lparr>redirect_pending := True,
                            redirect_pc := uint (regs c (rd inst) AND 0x3FF)\<rparr>
                     else c)
                  else if op inst = OP_JAL then
                    c\<lparr>redirect_pending := True, redirect_pc := uint (regs c (rd inst) AND 0x3FF)\<rparr>
                  else c);
            c2 = c1\<lparr>regs := (regs c1)(1 := imm inst)\<rparr>
        in (c2, nx\<lparr>next_exec := ne, next_decode := (next_decode nx)\<lparr>d_valid := False\<rparr>\<rparr>)
      else if \<not> stall then (c, nx\<lparr>next_decode := (next_decode nx)\<lparr>d_valid := False\<rparr>\<rparr>)
      else (c, nx))"

text \<open>The move of Fetch into Decode and the FETCH stage.\<close>

definition fetch_stage :: "Core \<Rightarrow> Next \<Rightarrow> bool \<Rightarrow> Core \<times> Next" where
  "fetch_stage c nx decode_free_next =
     (let fetch_moves = (f_valid (fetch c) \<and> decode_free_next);
          nx1 = (if fetch_moves
                 then nx\<lparr>next_decode := \<lparr> d_valid = True, d_inst = f_inst (fetch c) \<rparr>\<rparr> else nx)
      in if \<not> stop_fetch c \<and> decode_free_next then
           if redirect_pending c then
             let inst = decode_inst (imem c (redirect_pc c)) (redirect_pc c)
             in (c\<lparr>cpc := (redirect_pc c + 1) AND (IMEM_SIZE - 1), redirect_pending := False\<rparr>,
                 nx1\<lparr>next_fetch := \<lparr> f_valid = True, f_inst = inst \<rparr>\<rparr>)
           else
             let inst = decode_inst (imem c (cpc c)) (cpc c);
                 c1 = (if op inst = OP_HALT then c\<lparr>stop_fetch := True\<rparr> else c)
             in (c1\<lparr>cpc := (cpc c1 + 1) AND (IMEM_SIZE - 1)\<rparr>,
                 nx1\<lparr>next_fetch := \<lparr> f_valid = True, f_inst = inst \<rparr>\<rparr>)
         else if fetch_moves then (c, nx1\<lparr>next_fetch := (next_fetch nx1)\<lparr>f_valid := False\<rparr>\<rparr>)
         else (c, nx1))"

text \<open>The latch update at the end of the iteration and the \<open>done\<close> flag.\<close>

definition latch :: "Core \<Rightarrow> Next \<Rightarrow> Core" where
  "latch c nx =
     (let c1 = c\<lparr>wb := next_wb nx, mem := next_mem nx, exec := next_exec nx,
                 decode := next_decode nx, fetch := next_fetch nx\<rparr>;
          any_valid = (f_valid (fetch c1) \<or> d_valid (decode c1) \<or> e_valid (exec c1)
                       \<or> m_valid (mem c1) \<or> w_valid (wb c1))
      in if halted c1 \<and> \<not> any_valid then c1\<lparr>cdone := True\<rparr> else c1)"

definition pipeline_advance :: "int \<Rightarrow> Core \<Rightarrow> BusRequest \<Rightarrow> Core \<times> BusRequest" where
  "pipeline_advance i c0 req0 =
     (let c = bump_cycles c0 in
      case mem_stage i c (init_next c) req0 of (c1, nx1, req1, mem_advances) \<Rightarrow>
      case exec_stage c1 nx1 mem_advances of (nx2, exec_free_next) \<Rightarrow>
      case decode_hazard c1 exec_free_next of (c2, stall) \<Rightarrow>
      let decode_moves = (d_valid (decode c2) \<and> \<not> stall \<and> exec_free_next);
          decode_free_next = (\<not> d_valid (decode c2) \<or> decode_moves)
      in case decode_move c2 nx2 decode_moves stall of (c3, nx3) \<Rightarrow>
         case fetch_stage c3 nx3 decode_free_next of (c4, nx4) \<Rightarrow>
         (latch c4 nx4, req1))"

subsection \<open>The cycle loop of \<open>simulate\<close>\<close>

definition wb_iter :: "int \<Rightarrow> Sim \<Rightarrow> Sim" where
  "wb_iter i s = s\<lparr>cores := (cores s)(i := wb_commit (cores s i))\<rparr>"

definition wb_phase :: "Sim \<Rightarrow> Sim" where
  "wb_phase s = fold wb_iter core_range s"

definition pipeline_iter :: "int \<Rightarrow> Sim \<Rightarrow> Sim" where
  "pipeline_iter i s =
     (case pipeline_advance i (cores s i) (requests s i) of
        (c, r) \<Rightarrow> s\<lparr>cores := (cores s)(i := c), requests := (requests s)(i := r)\<rparr>)"

definition pipeline_phase :: "Sim \<Rightarrow> Sim" where
  "pipeline_phase s = fold pipeline_iter core_range s"

text \<open>
  The arbiter's scan \<open>for (k = 0; k < NUM_CORES; k++)\<close> with its \<open>break\<close>; \<open>-1\<close> when no
  slot is active.
\<close>

fun choose_slot :: "(int \<Rightarrow> BusRequest) \<Rightarrow> int \<Rightarrow> int list \<Rightarrow> int" where
  "choose_slot reqs rr [] = -1"
| "choose_slot reqs rr (k # ks) =
     (let idx = (rr + k) smod NUM_CORES
      in if active (reqs idx) then idx else choose_slot reqs rr ks)"

definition arbitrate :: "Sim \<Rightarrow> Sim" where
  "arbitrate s =
     (if phase (bus s) = 0 then
        let chosen = choose_slot (requests s) (rr_next s) core_range
        in if chosen \<noteq> -1 then
             let req = requests s chosen
             in case start_bus_transaction (bus s) req (cores s) (main_mem s) of
                  (b, cs) \<Rightarrow>
                    s\<lparr>rr_next := (chosen + 1) smod NUM_CORES,
                      requests := (requests s)(chosen := req\<lparr>active := False\<rparr>),
                      bus := b, cores := cs\<rparr>
           else s
      else s)"

definition drive_flush :: "BusState \<Rightarrow> BusState" where
  "drive_flush b =
     b\<lparr>bus_cmd_out := BUS_FLUSH, bus_origid_out := provider b,
       bus_addr_out := block_base (addr b) + word_of_int (index b),
       bus_data_out := block b (index b), bus_shared_out := shared b\<rparr>"

definition bus_output :: "BusState \<Rightarrow> BusState" where
  "bus_output b =
     (if phase b = 2 then drive_flush b
      else if phase b = 1 \<and> delay b = 0 \<and> bus_cmd_out b = BUS_NONE
        then drive_flush (b\<lparr>phase := 2, index := 0\<rparr>)
      else b)"

definition bus_advance :: "Sim \<Rightarrow> Sim" where
  "bus_advance s =
     (let b = bus s
      in if phase b = 1 \<and> delay b > 0 then s\<lparr>bus := b\<lparr>delay := delay b - 1\<rparr>\<rparr>
         else if phase b = 2 \<and> bus_cmd_out b = BUS_FLUSH then
           let b1 = b\<lparr>index := index b + 1\<rparr>
           in if index b1 \<ge> BLOCK_WORDS then
                case complete_transaction b1 (cores s) (main_mem s) of
                  (cs, m) \<Rightarrow> s\<lparr>cores := cs, main_mem := m, bus := b1\<lparr>phase := 0, cmd := BUS_NONE\<rparr>\<rparr>
              else s\<lparr>bus := b1\<rparr>
         else s)"

text \<open>
  The part of the loop body that runs the bus (\<open>bus_cycle\<close>), the part before it (the
  reset of the bus outputs and the two per-core loops, \<open>cores_cycle\<close>), and the whole loop
  body. Trace output does not change the state and is left out.
\<close>

definition bus_cycle :: "Sim \<Rightarrow> Sim" where
  "bus_cycle s = bus_advance ((arbitrate s)\<lparr>bus := bus_output (bus (arbitrate s))\<rparr>)"

definition cores_cycle :: "Sim \<Rightarrow> Sim" where
  "cores_cycle s = pipeline_phase (wb_phase (s\<lparr>bus := reset_bus_out (bus s)\<rparr>))"

definition cycle_step :: "Sim \<Rightarrow> Sim" where
  "cycle_step s = bus_cycle (cores_cycle s)"

text \<open>The loop's exit test \<open>all_done && bus.phase == 0\<close>, read at the end of the body.\<close>

definition all_done :: "Sim \<Rightarrow> bool" where
  "all_done s = fold (\<lambda>i d. if \<not> cdone (cores s i) then False else d) core_range True"

definition stopped :: "Sim \<Rightarrow> bool" where
  "stopped s = (all_done s \<and> phase (bus s) = 0)"

subsection \<open>Initial state\<close>

text \<open>
  The zero-initialised structures of \<open>simulate\<close> and the per-core set-up loop. The
  instruction memories and main memory are read from files: any contents are possible.
\<close>

definition zero_stats :: Stats where
  "zero_stats = \<lparr> cycles = 0, instructions = 0, read_hit = 0, write_hit = 0, read_miss = 0,
                  write_miss = 0, decode_stall = 0, mem_stall = 0 \<rparr>"

definition zero_mem_stage :: MemStage where
  "zero_mem_stage =
     \<lparr> m_valid = False, m_inst = zero_inst, alu_result = 0, mem_addr = 0, store_data = 0,
       is_load = False, is_store = False, miss = False, waiting = False,
       request_queued = False, load_value = 0 \<rparr>"

definition init_core :: "int \<Rightarrow> (int \<Rightarrow> u32) \<Rightarrow> Core" where
  "init_core i im =
     (let first = decode_inst (im 0) 0
      in \<lparr> core_id = i, imem = im, regs = (\<lambda>_. 0),
           cpc = (0 + 1) AND (IMEM_SIZE - 1),
           redirect_pending = False, redirect_pc = 0,
           stop_fetch = (op first = OP_HALT), halted = False, cdone = False,
           fetch = \<lparr> f_valid = True, f_inst = first \<rparr>,
           decode = \<lparr> d_valid = False, d_inst = zero_inst \<rparr>,
           exec = \<lparr> e_valid = False, e_inst = zero_inst, rs_val = 0, rt_val = 0, rd_val = 0 \<rparr>,
           mem = zero_mem_stage,
           wb = \<lparr> w_valid = False, w_inst = zero_inst, w_value = 0 \<rparr>,
           cache = \<lparr> data = (\<lambda>_. 0), tag = (\<lambda>_. 0), state = (\<lambda>_. 0) \<rparr>,
           stats = zero_stats \<rparr>)"

definition zero_bus :: BusState where
  "zero_bus =
     \<lparr> phase = 0, cmd = 0, origin = 0, addr = 0, shared = 0, provider = 0, block = (\<lambda>_. 0),
       delay = 0, index = 0, bus_cmd_out = 0, bus_origid_out = 0, bus_addr_out = 0,
       bus_data_out = 0, bus_shared_out = 0 \<rparr>"

definition init_sim :: "(int \<Rightarrow> int \<Rightarrow> u32) \<Rightarrow> (u32 \<Rightarrow> u32) \<Rightarrow> Sim" where
  "init_sim imems m =
     \<lparr> cores = (\<lambda>i. init_core i (imems i)),
       requests = (\<lambda>_. \<lparr> active = False, r_cmd = 0, r_addr = 0, r_origin = 0 \<rparr>),
       bus = zero_bus, rr_next = 0, main_mem = m \<rparr>"

text \<open>
  The states at the cycle boundaries of a run: the state before cycle 0, and the state
  after each loop body that the loop reaches (the body runs again only when the exit test
  failed). The optional cycle cap only cuts a run short.
\<close>

inductive reachable :: "Sim \<Rightarrow> bool" where
  reach_init: "reachable (init_sim imems m)"
| reach_step: "reachable s \<Longrightarrow> \<not> stopped s \<Longrightarrow> reachable (cycle_step s)"

section \<open>Specification-side definitions\<close>

text \<open>
  The address fields as the specification words them: offset = bits 2:0, index = bits 8:3,
  tag = bits 20:9 of a word address.
\<close>

definition spec_offset :: "u32 \<Rightarrow> int" where
  "spec_offset a = uint a mod 2 ^ 3"

definition spec_index :: "u32 \<Rightarrow> int" where
  "spec_index a = uint a div 2 ^ 3 mod 2 ^ 6"

definition spec_tag :: "u32 \<Rightarrow> int" where
  "spec_tag a = uint a div 2 ^ 9 mod 2 ^ 12"

section \<open>Auxiliary notions of the verification\<close>

text \<open>
  A cache holds the block of address \<open>a\<close> when the line at the block's index is not in
  state I and stores the block's tag (the test of \<open>cache_lookup\<close> and of \<open>apply_snoop\<close>).
\<close>

definition holds :: "Cache \<Rightarrow> u32 \<Rightarrow> bool" where
  "holds ca a = (state ca (cache_index a) \<noteq> MESI_I \<and> ucast (tag ca (cache_index a)) = cache_tag a)"

text \<open>Closed forms of the snoop of one cache and of the snoop loop.\<close>

definition snoop_state :: "8 word \<Rightarrow> int \<Rightarrow> 8 word" where
  "snoop_state st c =
     (if st = MESI_M \<or> st = MESI_E then (if c = BUS_RD then MESI_S else MESI_I)
      else if st = MESI_S \<and> c = BUS_RDX then MESI_I else st)"

definition snoop_hit :: "(int \<Rightarrow> Core) \<Rightarrow> BusRequest \<Rightarrow> int \<Rightarrow> bool" where
  "snoop_hit cs req i = (i \<noteq> r_origin req \<and> holds (cache (cs i)) (r_addr req))"

definition snoop_hit_M :: "(int \<Rightarrow> Core) \<Rightarrow> BusRequest \<Rightarrow> int \<Rightarrow> bool" where
  "snoop_hit_M cs req i =
     (snoop_hit cs req i \<and> state (cache (cs i)) (cache_index (r_addr req)) = MESI_M)"

definition snooped :: "(int \<Rightarrow> Core) \<Rightarrow> BusRequest \<Rightarrow> int \<Rightarrow> Core" where
  "snooped cs req i =
     (if snoop_hit cs req i then
        (cs i)\<lparr>cache := (cache (cs i))\<lparr>state := (state (cache (cs i)))
           (cache_index (r_addr req) :=
              snoop_state (state (cache (cs i)) (cache_index (r_addr req))) (r_cmd req))\<rparr>\<rparr>
      else cs i)"

definition line_words :: "Cache \<Rightarrow> int \<Rightarrow> (int \<Rightarrow> u32) \<Rightarrow> int \<Rightarrow> u32" where
  "line_words ca idx pb = (\<lambda>k. if 0 \<le> k \<and> k < 8 then data ca (idx * 8 + k) else pb k)"

definition snoop_provider :: "(int \<Rightarrow> Core) \<Rightarrow> BusRequest \<Rightarrow> int" where
  "snoop_provider cs req =
     (if snoop_hit_M cs req 3 then 3 else if snoop_hit_M cs req 2 then 2
      else if snoop_hit_M cs req 1 then 1 else if snoop_hit_M cs req 0 then 0 else -1)"

text \<open>Concrete states used to instantiate the theorems.\<close>


definition wit_cache :: "8 word \<Rightarrow> Cache" where
  "wit_cache st =
     \<lparr> data = (\<lambda>k. word_of_int k + 7), tag = (\<lambda>_. 0), state = (\<lambda>i. if i = 0 then st else MESI_I) \<rparr>"

definition wit_cores :: "int \<Rightarrow> Core" where
  "wit_cores i = (init_core i (\<lambda>_. 0))\<lparr>cache := wit_cache (if i = 1 then MESI_M else MESI_I)\<rparr>"

definition wit_req :: BusRequest where
  "wit_req = \<lparr> active = True, r_cmd = BUS_RD, r_addr = 0, r_origin = 0 \<rparr>"

definition wit_sim :: Sim where
  "wit_sim =
     \<lparr> cores = wit_cores,
       requests = (\<lambda>i. \<lparr> active = (i = 0 \<or> i = 2), r_cmd = BUS_RD, r_addr = 0, r_origin = i \<rparr>),
       bus = zero_bus, rr_next = 1, main_mem = (\<lambda>_. 0) \<rparr>"

text \<open>The MEM stage as \<open>pipeline_advance\<close> calls it.\<close>

definition mem_out :: "int \<Rightarrow> Core \<Rightarrow> BusRequest \<Rightarrow> Core \<times> Next \<times> BusRequest \<times> bool" where
  "mem_out i c req = mem_stage i (bump_cycles c) (init_next (bump_cycles c)) req"

definition wit_slot :: BusRequest where
  "wit_slot = \<lparr> active = False, r_cmd = 0, r_addr = 0, r_origin = 0 \<rparr>"

text \<open>A core whose Memory latch holds \<open>SW\<close> to address 0 while line 0 is in state S.\<close>

definition wit_store_core :: Core where
  "wit_store_core =
     (init_core 0 (\<lambda>_. 0))
       \<lparr>mem := zero_mem_stage\<lparr>m_valid := True, m_inst := decode_inst 0x11230000 7,
                              mem_addr := 0, store_data := 5\<rparr>,
        cache := wit_cache MESI_S\<rparr>"

text \<open>A state before the bus part of a cycle in which no cache holds any block.\<close>

definition wit_mem_sim :: Sim where
  "wit_mem_sim = wit_sim\<lparr>cores := (\<lambda>i. init_core i (\<lambda>_. 0))\<rparr>"

text \<open>The bus part of a cycle up to and including the bus output of the cycle.\<close>

definition bus_drive :: "Sim \<Rightarrow> Sim" where
  "bus_drive s = (arbitrate s)\<lparr>bus := bus_output (bus (arbitrate s))\<rparr>"

section \<open>Invariants\<close>

definition holds_M :: "Cache \<Rightarrow> u32 \<Rightarrow> bool" where
  "holds_M ca a = (holds ca a \<and> state ca (cache_index a) = MESI_M)"

definition holds_E :: "Cache \<Rightarrow> u32 \<Rightarrow> bool" where
  "holds_E ca a = (holds ca a \<and> state ca (cache_index a) = MESI_E)"

text \<open>The opcode is none of the 19 opcodes of the enumeration.\<close>

definition undefined_op :: "int \<Rightarrow> bool" where
  "undefined_op x =
     (x \<notin> {OP_ADD, OP_SUB, OP_AND, OP_OR, OP_XOR, OP_MUL, OP_SLL, OP_SRA, OP_SRL, OP_BEQ,
            OP_BNE, OP_BLT, OP_BGT, OP_BLE, OP_BGE, OP_JAL, OP_LW, OP_SW, OP_HALT})"

text \<open>
  Per-core invariant: R0 is zero; only a valid Memory latch waits; \<open>request_queued\<close> is
  never latched; an instruction with an undefined opcode carries result 0 through the
  Memory and Writeback latches and never waits; the pc is one past the instruction in
  Fetch.
\<close>

definition core_inv :: "Core \<Rightarrow> bool" where
  "core_inv c =
     (regs c 0 = 0
      \<and> (waiting (mem c) \<longrightarrow> m_valid (mem c))
      \<and> \<not> request_queued (mem c)
      \<and> (m_valid (mem c) \<and> undefined_op (op (m_inst (mem c)))
            \<longrightarrow> alu_result (mem c) = 0 \<and> \<not> waiting (mem c))
      \<and> (w_valid (wb c) \<and> undefined_op (op (w_inst (wb c))) \<longrightarrow> w_value (wb c) = 0)
      \<and> (f_valid (fetch c) \<longrightarrow> cpc c = (pc (f_inst (fetch c)) + 1) mod 1024))"

text \<open>
  Strong exclusivity: a line in M or E in one cache excludes any valid line with the same
  tag at the same index in another cache.
\<close>

definition excl :: "(int \<Rightarrow> Core) \<Rightarrow> bool" where
  "excl cs =
     (\<forall>i\<in>{0..3}. \<forall>j\<in>{0..3}. \<forall>idx. i \<noteq> j
        \<and> state (cache (cs i)) idx \<in> {MESI_M, MESI_E} \<and> state (cache (cs j)) idx \<noteq> MESI_I
        \<longrightarrow> tag (cache (cs i)) idx \<noteq> tag (cache (cs j)) idx)"

definition mesi_states :: "(int \<Rightarrow> Core) \<Rightarrow> bool" where
  "mesi_states cs =
     (\<forall>i\<in>{0..3}. \<forall>idx. state (cache (cs i)) idx \<in> {MESI_I, MESI_S, MESI_E, MESI_M})"

text \<open>A posted request: its core waits for it and does not hold the block in M.\<close>

definition req_inv :: "Sim \<Rightarrow> int \<Rightarrow> bool" where
  "req_inv s i =
     (active (requests s i) \<longrightarrow>
        r_origin (requests s i) = i
      \<and> (r_cmd (requests s i) = BUS_RD \<or> r_cmd (requests s i) = BUS_RDX)
      \<and> m_valid (mem (cores s i)) \<and> waiting (mem (cores s i))
      \<and> \<not> holds_M (cache (cores s i)) (r_addr (requests s i))
      \<and> \<not> (phase (bus s) \<noteq> 0 \<and> origin (bus s) = i))"

text \<open>
  A transaction in flight: the requester waits for it and does not hold the block in M;
  the other caches hold the block at most in S when the fill will be S, and not at all
  when the fill will be E or M.
\<close>

definition flight_inv :: "Sim \<Rightarrow> bool" where
  "flight_inv s =
     (phase (bus s) \<noteq> 0 \<longrightarrow>
        origin (bus s) \<in> {0..3}
      \<and> m_valid (mem (cores s (origin (bus s)))) \<and> waiting (mem (cores s (origin (bus s))))
      \<and> \<not> holds_M (cache (cores s (origin (bus s)))) (addr (bus s))
      \<and> (\<forall>j\<in>{0..3}. j \<noteq> origin (bus s) \<longrightarrow>
            (if cmd (bus s) = BUS_RD \<and> shared (bus s) \<noteq> 0
             then \<not> holds_M (cache (cores s j)) (addr (bus s))
                  \<and> \<not> holds_E (cache (cores s j)) (addr (bus s))
             else \<not> holds (cache (cores s j)) (addr (bus s)))))"

definition sim_inv :: "Sim \<Rightarrow> bool" where
  "sim_inv s =
     (0 \<le> rr_next s \<and> rr_next s < NUM_CORES
      \<and> excl (cores s) \<and> mesi_states (cores s)
      \<and> (\<forall>i\<in>{0..3}. req_inv s i) \<and> flight_inv s
      \<and> (\<forall>i\<in>{0..3}. core_inv (cores s i)))"

text \<open>
  The values of \<open>exec_free_next\<close>, \<open>decode_stall\<close> and \<open>decode_moves\<close> that iteration \<open>i\<close>
  of the pipeline loop computes for core \<open>c\<close>.
\<close>

definition exec_free_of :: "int \<Rightarrow> Core \<Rightarrow> BusRequest \<Rightarrow> bool" where
  "exec_free_of i c req =
     (\<not> e_valid (exec c) \<or> \<not> m_valid (mem c) \<or> snd (snd (snd (mem_out i c req))))"

definition data_hazard :: "Core \<Rightarrow> bool" where
  "data_hazard c = fold (hazard_iter c) (source_regs (d_inst (decode c))) False"

definition decode_moves_of :: "int \<Rightarrow> Core \<Rightarrow> BusRequest \<Rightarrow> bool" where
  "decode_moves_of i c req = (d_valid (decode c) \<and> \<not> data_hazard c \<and> exec_free_of i c req)"

text \<open>
  Two core states that differ at most in the cache and in the \<open>waiting\<close> flag of the
  Memory latch: all the bus part of a cycle may change of a core.
\<close>

definition same_pipe :: "Core \<Rightarrow> Core \<Rightarrow> bool" where
  "same_pipe c c' = (\<exists>ca w. c' = c\<lparr>cache := ca, mem := (mem c)\<lparr>waiting := w\<rparr>\<rparr>)"


text \<open>
  The redirect decision of the block guarded by \<open>decode_moves\<close>: a conditional branch whose
  comparison holds on the register values just read, or \<open>JAL\<close>.
\<close>

definition takes_redirect :: "Core \<Rightarrow> bool" where
  "takes_redirect c =
     (let inst = d_inst (decode c)
      in if op inst \<ge> OP_BEQ \<and> op inst \<le> OP_BGE
         then perform_compare inst (regs c (rs inst)) (regs c (rt inst))
         else op inst = OP_JAL)"

text \<open>The register file as Decode reads it: after the write of the immediate to R1.\<close>

definition decode_regs :: "Core \<Rightarrow> int \<Rightarrow> u32" where
  "decode_regs c =
     (if d_valid (decode c) then (regs c)(1 := imm (d_inst (decode c))) else regs c)"

text \<open>
  The redirect latch as the FETCH stage of iteration \<open>i\<close> sees it, and the address it
  fetches from.
\<close>

definition redirect_of :: "int \<Rightarrow> Core \<Rightarrow> BusRequest \<Rightarrow> bool" where
  "redirect_of i c req =
     (redirect_pending c
      \<or> (decode_moves_of i c req \<and> takes_redirect (c\<lparr>regs := decode_regs c\<rparr>)))"

definition target_of :: "int \<Rightarrow> Core \<Rightarrow> BusRequest \<Rightarrow> int" where
  "target_of i c req =
     (if decode_moves_of i c req \<and> takes_redirect (c\<lparr>regs := decode_regs c\<rparr>)
      then uint (decode_regs c (rd (d_inst (decode c))) AND 0x3FF)
      else redirect_pc c)"

definition fetch_addr_of :: "int \<Rightarrow> Core \<Rightarrow> BusRequest \<Rightarrow> int" where
  "fetch_addr_of i c req = (if redirect_of i c req then target_of i c req else cpc c)"

text \<open>
  A run in which every instruction memory holds the word 5 everywhere (\<open>ADD R0, R0, R0\<close>
  with immediate 5), after its first cycle.
\<close>

definition imem_five :: "int \<Rightarrow> int \<Rightarrow> u32" where
  "imem_five i a = 5"

definition c8_state :: Sim where
  "c8_state = cycle_step (init_sim imem_five (\<lambda>_. 0))"

text \<open>
  A run whose core-0 program starts with two jumps, \<open>JAL\<close> to the immediate 5 at address 0
  and \<open>JAL\<close> to the immediate 9 at address 1 (in the delay slot of the first): the state
  after one cycle and after two cycles.
\<close>

definition c4_imem :: "int \<Rightarrow> int \<Rightarrow> u32" where
  "c4_imem i a = (if a = 0 then 0x0F100005 else if a = 1 then 0x0F100009 else 0)"

definition c4_state1 :: Sim where
  "c4_state1 = cycle_step (init_sim c4_imem (\<lambda>_. 0))"

definition c4_state :: Sim where
  "c4_state = cycle_step c4_state1"

section \<open>Verification\<close>

lemmas const_defs =
  NUM_CORES_def IMEM_SIZE_def MAIN_MEM_WORDS_def BLOCK_WORDS_def OFFSET_BITS_def
  INDEX_BITS_def TAG_BITS_def INDEX_MASK_def OFFSET_MASK_def TAG_MASK_def
  BUS_NONE_def BUS_RD_def BUS_RDX_def BUS_FLUSH_def
  MESI_I_def MESI_S_def MESI_E_def MESI_M_def

lemmas op_defs =
  OP_ADD_def OP_SUB_def OP_AND_def OP_OR_def OP_XOR_def OP_MUL_def OP_SLL_def
  OP_SRA_def OP_SRL_def OP_BEQ_def OP_BNE_def OP_BLT_def OP_BGT_def OP_BLE_def
  OP_BGE_def OP_JAL_def OP_LW_def OP_SW_def OP_HALT_def


subsection \<open>Bit fields of an address\<close>

lemma mask_consts:
  "INDEX_MASK = mask 6" "OFFSET_MASK = mask 3" "TAG_MASK = mask 11"
  "MAIN_MEM_WORDS - 1 = mask 20" "push_bit 20 1 - 1 = (mask 20 :: u32)"
  by (simp_all add: const_defs mask_eq_exp_minus_1)

lemma block_base_mask: "block_base a = a AND NOT (mask 3)"
  by (simp add: block_base_def BLOCK_WORDS_def mask_eq_exp_minus_1)

lemma cache_index_div: "cache_index a = uint a div 8 mod 64"
  unfolding cache_index_def mask_consts OFFSET_BITS_def
  apply (simp flip: take_bit_eq_mask)
  apply (simp add: unsigned_take_bit_eq unsigned_drop_bit_eq take_bit_eq_mod drop_bit_eq_div
      uint_div_distrib uint_mod_distrib)
  done

lemma cache_tag_div: "uint (cache_tag a) = uint a div 512 mod 2048"
  unfolding cache_tag_def mask_consts OFFSET_BITS_def INDEX_BITS_def
  apply (simp flip: take_bit_eq_mask)
  apply (simp add: unsigned_take_bit_eq unsigned_drop_bit_eq take_bit_eq_mod drop_bit_eq_div
      uint_div_distrib uint_mod_distrib)
  done

lemma offset_mod: "uint (a AND OFFSET_MASK) = uint a mod 8"
  unfolding mask_consts
  apply (simp flip: take_bit_eq_mask)
  apply (simp add: unsigned_take_bit_eq unsigned_drop_bit_eq take_bit_eq_mod drop_bit_eq_div
      uint_div_distrib uint_mod_distrib)
  done

lemma cache_index_base [simp]: "cache_index (block_base a) = cache_index a"
  unfolding cache_index_def mask_consts OFFSET_BITS_def block_base_mask
  apply (rule arg_cong[where f=uint])
  apply (rule bit_word_eqI)
  apply (auto simp add: bit_simps)
  done

lemma cache_tag_base [simp]: "cache_tag (block_base a) = cache_tag a"
  unfolding cache_tag_def mask_consts OFFSET_BITS_def INDEX_BITS_def block_base_mask
  apply (rule bit_word_eqI)
  apply (auto simp add: bit_simps)
  done

lemma cache_index_mask20 [simp]: "cache_index (a AND (push_bit 20 1 - 1)) = cache_index a"
  unfolding cache_index_def mask_consts OFFSET_BITS_def
  apply (rule arg_cong[where f=uint])
  apply (rule bit_word_eqI)
  apply (auto simp add: bit_simps)
  done

lemma cache_tag_mask20 [simp]: "cache_tag (a AND (push_bit 20 1 - 1)) = cache_tag a"
  unfolding cache_tag_def mask_consts OFFSET_BITS_def INDEX_BITS_def
  apply (rule bit_word_eqI)
  apply (auto simp add: bit_simps)
  done

lemma ucast_tag_fill [simp]: "ucast (ucast (cache_tag a AND TAG_MASK) :: 16 word) = cache_tag a"
  unfolding mask_consts cache_tag_def
  apply (rule bit_word_eqI)
  apply (auto simp add: bit_simps)
  done

lemma ucast_tag_eq: "(ucast (x :: 16 word) = (t :: u32)) = (uint x = uint t)"
  by (simp add: word_uint_eq_iff[of "ucast x" t] uint_up_ucast is_up)

lemma fold_data_upd:
  "fold (\<lambda>i d. d(k + i := blk i)) block_range d0 =
     (\<lambda>j. if k \<le> j \<and> j < k + 8 then blk (j - k) else d0 j)"
  unfolding block_range_def by (rule ext) auto

lemma spec_tag_eq: "uint a < 2 ^ 20 \<Longrightarrow> spec_tag a = uint (cache_tag a)"
proof -
  assume "uint a < 2 ^ 20"
  then have "uint a div 512 < 2048" by simp
  moreover have "0 \<le> uint a div 512" by (simp add: div_int_pos_iff)
  ultimately show ?thesis unfolding spec_tag_def cache_tag_div by simp
qed

text \<open>
  Claim C9. For every word address \<open>a < 2^20\<close>, the cache operations use the
  decomposition offset = bits 2:0, index = bits 8:3, tag = bits 20:9 of \<open>a\<close>: the three
  field extractions of the source agree with it; lookup hits iff the line at that index is
  not in state I and stores that tag; read and write address the word
  \<open>index * 8 + offset\<close>; and a fill for the block of \<open>a\<close> (as the bus completion performs
  it) stores that tag, the new state and the eight block words at that index.
\<close>

theorem cache_decomposition:
  assumes a: "uint a < 2 ^ 20"
  shows "cache_index a = spec_index a \<and> uint (cache_tag a) = spec_tag a
       \<and> uint (a AND OFFSET_MASK) = spec_offset a
       \<and> (fst (cache_lookup c a st) \<longleftrightarrow>
            state c (spec_index a) \<noteq> MESI_I \<and> uint (tag c (spec_index a)) = spec_tag a)
       \<and> cache_read c a = data c (spec_index a * 8 + spec_offset a)
       \<and> cache_write c a v = c\<lparr>data := (data c)(spec_index a * 8 + spec_offset a := v)\<rparr>
       \<and> (let c' = fst (fill_cache_line c (cache_index (block_base a)) (cache_tag (block_base a))
                          blk ns m)
          in uint (tag c' (spec_index a)) = spec_tag a \<and> state c' (spec_index a) = ns
           \<and> (\<forall>i\<in>{0..7}. data c' (spec_index a * 8 + i) = blk i))"
proof -
  have i: "cache_index a = spec_index a" by (simp add: cache_index_div spec_index_def)
  have t: "uint (cache_tag a) = spec_tag a" using a by (simp add: spec_tag_eq)
  have o: "uint (a AND OFFSET_MASK) = spec_offset a" by (simp add: offset_mod spec_offset_def)
  have l: "fst (cache_lookup c a st) \<longleftrightarrow>
            state c (spec_index a) \<noteq> MESI_I \<and> uint (tag c (spec_index a)) = spec_tag a"
    by (simp add: cache_lookup_def Let_def i ucast_tag_eq t)
  have r: "cache_read c a = data c (spec_index a * 8 + spec_offset a)"
    by (simp add: cache_read_def i o BLOCK_WORDS_def)
  have w: "cache_write c a v = c\<lparr>data := (data c)(spec_index a * 8 + spec_offset a := v)\<rparr>"
    by (simp add: cache_write_def i o BLOCK_WORDS_def)
  have u: "uint (ucast (cache_tag a AND TAG_MASK) :: 16 word) = uint (cache_tag a)"
    using ucast_tag_eq[of "ucast (cache_tag a AND TAG_MASK)" "cache_tag a"] by simp
  have f: "(let c' = fst (fill_cache_line c (cache_index (block_base a)) (cache_tag (block_base a))
                          blk ns m)
          in uint (tag c' (spec_index a)) = spec_tag a \<and> state c' (spec_index a) = ns
           \<and> (\<forall>i\<in>{0..7}. data c' (spec_index a * 8 + i) = blk i))"
    by (simp add: Let_def fill_cache_line_def BLOCK_WORDS_def fold_data_upd i u t)
  from i t o l r w f show ?thesis by blast
qed

theorem cache_decomposition_witness:
  "uint (0x12345 :: u32) < 2 ^ 20 \<and> cache_index 0x12345 = 40 \<and> uint (cache_tag 0x12345) = 145
   \<and> uint ((0x12345 :: u32) AND OFFSET_MASK) = 5"
  using cache_decomposition [of "0x12345"]
  by (simp add: spec_index_def spec_tag_def spec_offset_def)

subsection \<open>Closed forms of the loops\<close>

lemma in_core_range: "i \<in> set core_range \<longleftrightarrow> i = 0 \<or> i = 1 \<or> i = 2 \<or> i = 3"
  by (auto simp: core_range_def)

lemma fold_block_copy:
  "fold (\<lambda>i f. f(i := g i)) block_range f0 = (\<lambda>k. if 0 \<le> k \<and> k < 8 then g k else f0 k)"
  unfolding block_range_def by (rule ext) auto

lemma wb_phase_eq:
  "wb_phase s = s\<lparr>cores := (\<lambda>i. if i \<in> set core_range then wb_commit (cores s i) else cores s i)\<rparr>"
  by (cases s) (auto simp: wb_phase_def wb_iter_def core_range_def fun_eq_iff)

lemma pipeline_phase_eq:
  "pipeline_phase s =
     s\<lparr>cores := (\<lambda>i. if i \<in> set core_range
                      then fst (pipeline_advance i (cores s i) (requests s i)) else cores s i),
       requests := (\<lambda>i. if i \<in> set core_range
                      then snd (pipeline_advance i (cores s i) (requests s i)) else requests s i)\<rparr>"
  by (cases s) (auto simp: pipeline_phase_def pipeline_iter_def core_range_def fun_eq_iff split_beta)

lemma apply_snoop_eq:
  "apply_snoop ca i orig c a (sh, pr, pb) =
     (if i \<noteq> orig \<and> holds ca a then
        (ca\<lparr>state := (state ca)(cache_index a := snoop_state (state ca (cache_index a)) c)\<rparr>,
         1,
         if state ca (cache_index a) = MESI_M then i else pr,
         if state ca (cache_index a) = MESI_M then line_words ca (cache_index a) pb else pb)
      else (ca, sh, pr, pb))"
  by (simp add: apply_snoop_def holds_def snoop_state_def Let_def fold_block_copy line_words_def
      BLOCK_WORDS_def MESI_I_def MESI_S_def MESI_E_def MESI_M_def)

lemma snoop_iter_eq:
  "snoop_iter req i (cs, sh, pr, pb) =
     (cs(i := snooped cs req i),
      if snoop_hit cs req i then 1 else sh,
      if snoop_hit_M cs req i then i else pr,
      if snoop_hit_M cs req i
        then line_words (cache (cs i)) (cache_index (r_addr req)) pb else pb)"
  by (simp add: snoop_iter_def apply_snoop_eq snooped_def snoop_hit_def snoop_hit_M_def)

lemma snoop_hit_upd [simp]:
  "j \<noteq> i \<Longrightarrow> snoop_hit (cs(j := c)) req i = snoop_hit cs req i"
  "j \<noteq> i \<Longrightarrow> snoop_hit_M (cs(j := c)) req i = snoop_hit_M cs req i"
  "j \<noteq> i \<Longrightarrow> snooped (cs(j := c)) req i = snooped cs req i"
  by (simp_all add: snoop_hit_def snoop_hit_M_def snooped_def)

lemma line_words_idem [simp]:
  "line_words ca idx (line_words ca' idx' pb) = line_words ca idx pb"
  by (simp add: line_words_def fun_eq_iff)

lemma snoop_all_eq:
  "snoop_all req cs =
     (\<lambda>i. if i \<in> set core_range then snooped cs req i else cs i,
      if \<exists>i\<in>set core_range. snoop_hit cs req i then 1 else 0,
      snoop_provider cs req,
      if snoop_provider cs req = -1 then (\<lambda>_. 0)
      else line_words (cache (cs (snoop_provider cs req))) (cache_index (r_addr req)) (\<lambda>_. 0))"
proof -
  have c: "(\<lambda>i. if i \<in> set core_range then snooped cs req i else cs i) =
           cs(0 := snooped cs req 0, 1 := snooped cs req 1, 2 := snooped cs req 2,
              3 := snooped cs req 3)"
    by (rule ext) (simp add: core_range_def)
  show ?thesis
    unfolding c unfolding snoop_all_def core_range_def snoop_provider_def
    by (simp add: snoop_iter_eq)
qed

subsection \<open>The arbiter\<close>

lemma smod4: "0 \<le> (x::int) \<Longrightarrow> x smod NUM_CORES = x mod 4"
  by (simp add: smod_int_alt_def NUM_CORES_def sgn_if)


subsection \<open>Start of a transaction: snoop and arbitration\<close>

lemma start_bus_cores:
  "snd (start_bus_transaction b req cs m) =
     (\<lambda>i. if i \<in> set core_range then snooped cs req i else cs i)"
  by (simp add: start_bus_transaction_def snoop_all_eq Let_def)

lemma start_bus_fields:
  "phase (fst (start_bus_transaction b req cs m)) = 1"
  "cmd (fst (start_bus_transaction b req cs m)) = r_cmd req"
  "origin (fst (start_bus_transaction b req cs m)) = r_origin req"
  "addr (fst (start_bus_transaction b req cs m)) = r_addr req"
  "index (fst (start_bus_transaction b req cs m)) = 0"
  "bus_cmd_out (fst (start_bus_transaction b req cs m)) = r_cmd req"
  "shared (fst (start_bus_transaction b req cs m)) =
     (if \<exists>i\<in>set core_range. snoop_hit cs req i then 1 else 0)"
  "provider (fst (start_bus_transaction b req cs m)) =
     (if snoop_provider cs req = -1 then 4 else snoop_provider cs req)"
  "delay (fst (start_bus_transaction b req cs m)) =
     (if snoop_provider cs req = -1 then 16 else 0)"
  "block (fst (start_bus_transaction b req cs m)) =
     (\<lambda>k. if 0 \<le> k \<and> k < 8 then
            (if snoop_provider cs req = -1
             then m ((block_base (r_addr req) + word_of_int k) AND (MAIN_MEM_WORDS - 1))
             else data (cache (cs (snoop_provider cs req))) (cache_index (r_addr req) * 8 + k))
          else block b k)"
  by (simp_all add: start_bus_transaction_def snoop_all_eq Let_def reset_bus_out_def
      fold_block_copy line_words_def fun_eq_iff)

lemma core_range_set: "set core_range = {0..3}"
  by (auto simp: core_range_def)

lemma in_0_3: "(i::int) \<in> {0..3} \<longleftrightarrow> i = 0 \<or> i = 1 \<or> i = 2 \<or> i = 3"
  by auto

lemma snoop_provider_unique:
  assumes "i \<in> {0..3}" "snoop_hit_M cs req i"
    "\<forall>j\<in>{0..3}. j \<noteq> i \<longrightarrow> \<not> snoop_hit_M cs req j"
  shows "snoop_provider cs req = i"
  using assms unfolding in_0_3 by (auto simp: snoop_provider_def)

lemma snoop_provider_none:
  assumes "\<forall>j\<in>{0..3}. \<not> snoop_hit_M cs req j"
  shows "snoop_provider cs req = -1"
  using assms by (auto simp: snoop_provider_def)

text \<open>
  Claim C2. When a bus transaction starts with command BusRd or BusRdX, the snoop changes
  exactly the lines of the non-origin caches that hold the requested block: a line in M or
  E goes to S on BusRd and to I on BusRdX, a line in S goes to I on BusRdX and stays S on
  BusRd, and nothing else of any core changes. The shared flag is 1 iff some non-origin
  cache held the block. The cache that held it in M becomes the provider and its eight
  words are staged; when no non-origin cache held it in M (holders in E or S only, or
  none), the provider is memory (4) and the block is read from main memory.
\<close>

theorem snoop_transitions:
  assumes c: "r_cmd req = BUS_RD \<or> r_cmd req = BUS_RDX"
    and st: "start_bus_transaction b req cs m = (b', cs')"
  shows "(\<forall>i\<in>{0..3}.
            if i \<noteq> r_origin req \<and> holds (cache (cs i)) (r_addr req) then
              cs' i = (cs i)\<lparr>cache := (cache (cs i))\<lparr>state := (state (cache (cs i)))
                         (cache_index (r_addr req) :=
                            state (cache (cs' i)) (cache_index (r_addr req)))\<rparr>\<rparr>
              \<and> (state (cache (cs i)) (cache_index (r_addr req)) \<in> {MESI_M, MESI_E} \<longrightarrow>
                   state (cache (cs' i)) (cache_index (r_addr req)) =
                     (if r_cmd req = BUS_RD then MESI_S else MESI_I))
              \<and> (state (cache (cs i)) (cache_index (r_addr req)) = MESI_S \<longrightarrow>
                   state (cache (cs' i)) (cache_index (r_addr req)) =
                     (if r_cmd req = BUS_RDX then MESI_I else MESI_S))
            else cs' i = cs i)
       \<and> shared b' = (if \<exists>i\<in>{0..3}. i \<noteq> r_origin req \<and> holds (cache (cs i)) (r_addr req)
                       then 1 else 0)
       \<and> (\<forall>i\<in>{0..3}. snoop_hit_M cs req i \<and> (\<forall>j\<in>{0..3}. j \<noteq> i \<longrightarrow> \<not> snoop_hit_M cs req j) \<longrightarrow>
             provider b' = i
             \<and> (\<forall>k\<in>{0..7}. block b' k =
                   data (cache (cs i)) (cache_index (r_addr req) * BLOCK_WORDS + k)))
       \<and> ((\<forall>i\<in>{0..3}. \<not> snoop_hit_M cs req i) \<longrightarrow>
             provider b' = 4
             \<and> (\<forall>k\<in>{0..7}. block b' k =
                   m ((block_base (r_addr req) + word_of_int k) AND (MAIN_MEM_WORDS - 1))))"
proof -
  from st have b': "b' = fst (start_bus_transaction b req cs m)"
    and cs': "cs' = snd (start_bus_transaction b req cs m)" by simp_all
  have 1: "\<forall>i\<in>{0..3}.
            if i \<noteq> r_origin req \<and> holds (cache (cs i)) (r_addr req) then
              cs' i = (cs i)\<lparr>cache := (cache (cs i))\<lparr>state := (state (cache (cs i)))
                         (cache_index (r_addr req) :=
                            state (cache (cs' i)) (cache_index (r_addr req)))\<rparr>\<rparr>
              \<and> (state (cache (cs i)) (cache_index (r_addr req)) \<in> {MESI_M, MESI_E} \<longrightarrow>
                   state (cache (cs' i)) (cache_index (r_addr req)) =
                     (if r_cmd req = BUS_RD then MESI_S else MESI_I))
              \<and> (state (cache (cs i)) (cache_index (r_addr req)) = MESI_S \<longrightarrow>
                   state (cache (cs' i)) (cache_index (r_addr req)) =
                     (if r_cmd req = BUS_RDX then MESI_I else MESI_S))
            else cs' i = cs i"
    using c unfolding cs' start_bus_cores core_range_set
    by (auto simp: snooped_def snoop_hit_def snoop_state_def const_defs)
  have 2: "shared b' = (if \<exists>i\<in>{0..3}. i \<noteq> r_origin req \<and> holds (cache (cs i)) (r_addr req)
                       then 1 else 0)"
    unfolding b' start_bus_fields core_range_set snoop_hit_def by simp
  have 3: "\<forall>i\<in>{0..3}. snoop_hit_M cs req i \<and> (\<forall>j\<in>{0..3}. j \<noteq> i \<longrightarrow> \<not> snoop_hit_M cs req j) \<longrightarrow>
             provider b' = i
             \<and> (\<forall>k\<in>{0..7}. block b' k =
                   data (cache (cs i)) (cache_index (r_addr req) * BLOCK_WORDS + k))"
    unfolding b' start_bus_fields
    by (auto simp: snoop_provider_unique BLOCK_WORDS_def)
  have 4: "(\<forall>i\<in>{0..3}. \<not> snoop_hit_M cs req i) \<longrightarrow>
             provider b' = 4
             \<and> (\<forall>k\<in>{0..7}. block b' k =
                   m ((block_base (r_addr req) + word_of_int k) AND (MAIN_MEM_WORDS - 1)))"
    unfolding b' start_bus_fields
    by (auto simp: snoop_provider_none)
  from 1 2 3 4 show ?thesis by blast
qed



lemma scan_surj:
  assumes "0 \<le> rr" "rr < 4" "i \<in> {0..3}"
  shows "\<exists>k\<in>{0..3}. (rr + k) mod 4 = (i::int)"
proof -
  have "(i - rr) mod 4 \<in> {0..3}" by simp
  moreover have "(rr + (i - rr) mod 4) mod 4 = i" using assms by (simp add: mod_add_right_eq)
  ultimately show ?thesis by blast
qed

lemma int_ranges:
  "{0..<0::int} = {}" "{0..<1::int} = {0}" "{0..<2::int} = {0, 1}" "{0..<3::int} = {0, 1, 2}"
  "{0..3::int} = {0, 1, 2, 3}"
  by auto

lemma choose_slot_core_range:
  "0 \<le> rr \<Longrightarrow> choose_slot reqs rr core_range =
     (if active (reqs (rr mod 4)) then rr mod 4
      else if active (reqs ((rr + 1) mod 4)) then (rr + 1) mod 4
      else if active (reqs ((rr + 2) mod 4)) then (rr + 2) mod 4
      else if active (reqs ((rr + 3) mod 4)) then (rr + 3) mod 4 else -1)"
  by (simp add: core_range_def Let_def smod4)

text \<open>
  Claim C6. When the bus is idle and some request slot is active, the winner is the first
  active slot in the scan \<open>rr_next, rr_next + 1, ...\<close> modulo 4; only the winner's slot is
  deactivated (all other slots are unchanged, so losers stay active); \<open>rr_next\<close> becomes
  \<open>(winner + 1) mod 4\<close>; and the transaction is started in the same arbitration step
  (the bus leaves Idle and drives the request's command).
\<close>

theorem arbitration_round_robin:
  assumes idle: "phase (bus s) = 0"
    and rr: "0 \<le> rr_next s" "rr_next s < NUM_CORES"
    and act: "\<exists>i\<in>{0..3}. active (requests s i)"
  shows "\<exists>k\<in>{0..3}.
           active (requests s ((rr_next s + k) mod 4))
         \<and> (\<forall>k'\<in>{0..<k}. \<not> active (requests s ((rr_next s + k') mod 4)))
         \<and> rr_next (arbitrate s) = ((rr_next s + k) mod 4 + 1) mod 4
         \<and> requests (arbitrate s) =
             (requests s)((rr_next s + k) mod 4 :=
                (requests s ((rr_next s + k) mod 4))\<lparr>active := False\<rparr>)
         \<and> (bus (arbitrate s), cores (arbitrate s)) =
             start_bus_transaction (bus s) (requests s ((rr_next s + k) mod 4)) (cores s)
               (main_mem s)
         \<and> phase (bus (arbitrate s)) = 1
         \<and> bus_cmd_out (bus (arbitrate s)) = r_cmd (requests s ((rr_next s + k) mod 4))"
proof -
  let ?rr = "rr_next s"
  let ?a = "\<lambda>k. active (requests s ((?rr + k) mod 4))"
  let ?P = "\<lambda>k. ?a k \<and> (\<forall>k'\<in>{0..<k}. \<not> ?a k') \<and> choose_slot (requests s) ?rr core_range = (?rr + k) mod 4"
  from act rr obtain i where "i \<in> {0..3}" "active (requests s i)" by blast
  with scan_surj[of ?rr i] rr have "\<exists>k\<in>{0..3}. ?a k"
    by (auto simp: NUM_CORES_def)
  then have "?a 0 \<or> ?a 1 \<or> ?a 2 \<or> ?a 3" by (simp add: int_ranges)
  then have "\<exists>k\<in>{0..3}. ?P k"
  proof (elim disjE)
    assume "?a 0"
    then show ?thesis using rr(1)
      by (intro bexI[of _ 0]) (simp_all add: choose_slot_core_range int_ranges)
  next
    assume a1: "?a 1"
    show ?thesis
    proof (cases "?a 0")
      case True
      then show ?thesis using rr(1)
        by (intro bexI[of _ 0]) (simp_all add: choose_slot_core_range int_ranges)
    next
      case False
      with a1 show ?thesis using rr(1)
        by (intro bexI[of _ 1]) (simp_all add: choose_slot_core_range int_ranges)
    qed
  next
    assume a2: "?a 2"
    show ?thesis
    proof (cases "?a 0")
      case True
      then show ?thesis using rr(1)
        by (intro bexI[of _ 0]) (simp_all add: choose_slot_core_range int_ranges)
    next
      case a0: False
      show ?thesis
      proof (cases "?a 1")
        case True
        with a0 show ?thesis using rr(1)
          by (intro bexI[of _ 1]) (simp_all add: choose_slot_core_range int_ranges)
      next
        case False
        with a0 a2 show ?thesis using rr(1)
          by (intro bexI[of _ 2]) (simp_all add: choose_slot_core_range int_ranges)
      qed
    qed
  next
    assume a3: "?a 3"
    show ?thesis
    proof (cases "?a 0")
      case True
      then show ?thesis using rr(1)
        by (intro bexI[of _ 0]) (simp_all add: choose_slot_core_range int_ranges)
    next
      case a0: False
      show ?thesis
      proof (cases "?a 1")
        case True
        with a0 show ?thesis using rr(1)
          by (intro bexI[of _ 1]) (simp_all add: choose_slot_core_range int_ranges)
      next
        case a1: False
        show ?thesis
        proof (cases "?a 2")
          case True
          with a0 a1 show ?thesis using rr(1)
            by (intro bexI[of _ 2]) (simp_all add: choose_slot_core_range int_ranges)
        next
          case False
          with a0 a1 a3 show ?thesis using rr(1)
            by (intro bexI[of _ 3]) (simp_all add: choose_slot_core_range int_ranges)
        qed
      qed
    qed
  qed
  then obtain k where k: "k \<in> {0..3}" and P: "?P k" by blast
  have w0: "(?rr + k) mod 4 \<noteq> -1" "0 \<le> (?rr + k) mod 4 + 1" by simp_all
  show ?thesis
    apply (rule bexI[OF _ k])
    using P idle w0
    apply (simp add: arbitrate_def Let_def split_beta smod4 start_bus_fields)
    done
qed


theorem arbitration_round_robin_witness:
  "phase (bus wit_sim) = 0 \<and> 0 \<le> rr_next wit_sim \<and> rr_next wit_sim < NUM_CORES
   \<and> (\<exists>i\<in>{0..3}. active (requests wit_sim i))
   \<and> rr_next (arbitrate wit_sim) = 3
   \<and> \<not> active (requests (arbitrate wit_sim) 2) \<and> active (requests (arbitrate wit_sim) 0)"
  using arbitration_round_robin [of wit_sim]
  by (simp add: wit_sim_def zero_bus_def NUM_CORES_def int_ranges)

theorem snoop_transitions_witness:
  "(r_cmd wit_req = BUS_RD \<or> r_cmd wit_req = BUS_RDX)
   \<and> shared (fst (start_bus_transaction zero_bus wit_req wit_cores (\<lambda>_. 0))) = 1
   \<and> provider (fst (start_bus_transaction zero_bus wit_req wit_cores (\<lambda>_. 0))) = 1
   \<and> state (cache (snd (start_bus_transaction zero_bus wit_req wit_cores (\<lambda>_. 0)) 1)) 0 = MESI_S"
  using snoop_transitions [of wit_req zero_bus wit_cores "\<lambda>_. 0"
      "fst (start_bus_transaction zero_bus wit_req wit_cores (\<lambda>_. 0))"
      "snd (start_bus_transaction zero_bus wit_req wit_cores (\<lambda>_. 0))"]
  by (simp add: wit_req_def wit_cores_def wit_cache_def int_ranges holds_def snoop_hit_M_def
      snoop_hit_def cache_index_div cache_tag_def const_defs)

subsection \<open>What each stage leaves unchanged\<close>

lemma count_access_frame [simp]:
  "core_id (count_access c h s) = core_id c"
  "imem (count_access c h s) = imem c"
  "regs (count_access c h s) = regs c"
  "cpc (count_access c h s) = cpc c"
  "redirect_pending (count_access c h s) = redirect_pending c"
  "redirect_pc (count_access c h s) = redirect_pc c"
  "stop_fetch (count_access c h s) = stop_fetch c"
  "halted (count_access c h s) = halted c"
  "cdone (count_access c h s) = cdone c"
  "fetch (count_access c h s) = fetch c"
  "decode (count_access c h s) = decode c"
  "exec (count_access c h s) = exec c"
  "mem (count_access c h s) = mem c"
  "wb (count_access c h s) = wb c"
  "cache (count_access c h s) = cache c"
  "cycles (stats (count_access c h s)) = cycles (stats c)"
  "instructions (stats (count_access c h s)) = instructions (stats c)"
  "decode_stall (stats (count_access c h s)) = decode_stall (stats c)"
  "mem_stall (stats (count_access c h s)) = mem_stall (stats c)"
  by (simp_all add: count_access_def Let_def)

lemma bump_cycles_frame [simp]:
  "core_id (bump_cycles c) = core_id c"
  "imem (bump_cycles c) = imem c"
  "regs (bump_cycles c) = regs c"
  "cpc (bump_cycles c) = cpc c"
  "redirect_pending (bump_cycles c) = redirect_pending c"
  "redirect_pc (bump_cycles c) = redirect_pc c"
  "stop_fetch (bump_cycles c) = stop_fetch c"
  "halted (bump_cycles c) = halted c"
  "cdone (bump_cycles c) = cdone c"
  "fetch (bump_cycles c) = fetch c"
  "decode (bump_cycles c) = decode c"
  "exec (bump_cycles c) = exec c"
  "mem (bump_cycles c) = mem c"
  "wb (bump_cycles c) = wb c"
  "cache (bump_cycles c) = cache c"
  "instructions (stats (bump_cycles c)) = instructions (stats c)"
  "read_hit (stats (bump_cycles c)) = read_hit (stats c)"
  "write_hit (stats (bump_cycles c)) = write_hit (stats c)"
  "read_miss (stats (bump_cycles c)) = read_miss (stats c)"
  "write_miss (stats (bump_cycles c)) = write_miss (stats c)"
  "decode_stall (stats (bump_cycles c)) = decode_stall (stats c)"
  "mem_stall (stats (bump_cycles c)) = mem_stall (stats c)"
  by (simp_all add: bump_cycles_def)

lemma init_next_simps [simp]:
  "next_mem (init_next c) = mem c"
  "next_exec (init_next c) = exec c"
  "next_decode (init_next c) = decode c"
  "next_fetch (init_next c) = fetch c"
  "w_valid (next_wb (init_next c)) = False"
  by (simp_all add: init_next_def)

lemma mem_stage_frame [simp]:
  "core_id (fst (mem_stage i c nx req)) = core_id c"
  "imem (fst (mem_stage i c nx req)) = imem c"
  "regs (fst (mem_stage i c nx req)) = regs c"
  "cpc (fst (mem_stage i c nx req)) = cpc c"
  "redirect_pending (fst (mem_stage i c nx req)) = redirect_pending c"
  "redirect_pc (fst (mem_stage i c nx req)) = redirect_pc c"
  "stop_fetch (fst (mem_stage i c nx req)) = stop_fetch c"
  "halted (fst (mem_stage i c nx req)) = halted c"
  "cdone (fst (mem_stage i c nx req)) = cdone c"
  "fetch (fst (mem_stage i c nx req)) = fetch c"
  "decode (fst (mem_stage i c nx req)) = decode c"
  "exec (fst (mem_stage i c nx req)) = exec c"
  "wb (fst (mem_stage i c nx req)) = wb c"
  "cycles (stats (fst (mem_stage i c nx req))) = cycles (stats c)"
  "instructions (stats (fst (mem_stage i c nx req))) = instructions (stats c)"
  "decode_stall (stats (fst (mem_stage i c nx req))) = decode_stall (stats c)"
  "m_valid (mem (fst (mem_stage i c nx req))) = m_valid (mem c)"
  "m_inst (mem (fst (mem_stage i c nx req))) = m_inst (mem c)"
  "alu_result (mem (fst (mem_stage i c nx req))) = alu_result (mem c)"
  "mem_addr (mem (fst (mem_stage i c nx req))) = mem_addr (mem c)"
  "store_data (mem (fst (mem_stage i c nx req))) = store_data (mem c)"
  "is_load (mem (fst (mem_stage i c nx req))) = is_load (mem c)"
  "is_store (mem (fst (mem_stage i c nx req))) = is_store (mem c)"
  "miss (mem (fst (mem_stage i c nx req))) = miss (mem c)"
  "waiting (mem (fst (mem_stage i c nx req))) = waiting (mem c)"
  "load_value (mem (fst (mem_stage i c nx req))) = load_value (mem c)"
  "next_exec (fst (snd (mem_stage i c nx req))) = next_exec nx"
  "next_decode (fst (snd (mem_stage i c nx req))) = next_decode nx"
  "next_fetch (fst (snd (mem_stage i c nx req))) = next_fetch nx"
  by (simp_all add: mem_stage_def Let_def split_beta)

lemma exec_stage_frame [simp]:
  "next_wb (fst (exec_stage c nx adv)) = next_wb nx"
  "next_decode (fst (exec_stage c nx adv)) = next_decode nx"
  "next_fetch (fst (exec_stage c nx adv)) = next_fetch nx"
  "snd (exec_stage c nx adv) = (\<not> e_valid (exec c) \<or> \<not> m_valid (mem c) \<or> adv)"
  by (auto simp add: exec_stage_def Let_def)

lemma decode_hazard_frame [simp]:
  "core_id (fst (decode_hazard c efn)) = core_id c"
  "imem (fst (decode_hazard c efn)) = imem c"
  "cpc (fst (decode_hazard c efn)) = cpc c"
  "redirect_pending (fst (decode_hazard c efn)) = redirect_pending c"
  "redirect_pc (fst (decode_hazard c efn)) = redirect_pc c"
  "stop_fetch (fst (decode_hazard c efn)) = stop_fetch c"
  "halted (fst (decode_hazard c efn)) = halted c"
  "cdone (fst (decode_hazard c efn)) = cdone c"
  "fetch (fst (decode_hazard c efn)) = fetch c"
  "decode (fst (decode_hazard c efn)) = decode c"
  "exec (fst (decode_hazard c efn)) = exec c"
  "mem (fst (decode_hazard c efn)) = mem c"
  "wb (fst (decode_hazard c efn)) = wb c"
  "cache (fst (decode_hazard c efn)) = cache c"
  "cycles (stats (fst (decode_hazard c efn))) = cycles (stats c)"
  "instructions (stats (fst (decode_hazard c efn))) = instructions (stats c)"
  "read_hit (stats (fst (decode_hazard c efn))) = read_hit (stats c)"
  "write_hit (stats (fst (decode_hazard c efn))) = write_hit (stats c)"
  "read_miss (stats (fst (decode_hazard c efn))) = read_miss (stats c)"
  "write_miss (stats (fst (decode_hazard c efn))) = write_miss (stats c)"
  "mem_stall (stats (fst (decode_hazard c efn))) = mem_stall (stats c)"
  "regs (fst (decode_hazard c efn)) = (if d_valid (decode c) then (regs c)(1 := imm (d_inst (decode c))) else regs c)"
  by (simp_all add: decode_hazard_def Let_def)

lemma decode_move_frame [simp]:
  "core_id (fst (decode_move c nx dm stall)) = core_id c"
  "imem (fst (decode_move c nx dm stall)) = imem c"
  "cpc (fst (decode_move c nx dm stall)) = cpc c"
  "stop_fetch (fst (decode_move c nx dm stall)) = stop_fetch c"
  "halted (fst (decode_move c nx dm stall)) = halted c"
  "cdone (fst (decode_move c nx dm stall)) = cdone c"
  "fetch (fst (decode_move c nx dm stall)) = fetch c"
  "decode (fst (decode_move c nx dm stall)) = decode c"
  "exec (fst (decode_move c nx dm stall)) = exec c"
  "mem (fst (decode_move c nx dm stall)) = mem c"
  "wb (fst (decode_move c nx dm stall)) = wb c"
  "cache (fst (decode_move c nx dm stall)) = cache c"
  "stats (fst (decode_move c nx dm stall)) = stats c"
  "regs (fst (decode_move c nx dm stall)) = (if dm then (regs c)(1 := imm (d_inst (decode c))) else regs c)"
  "next_wb (snd (decode_move c nx dm stall)) = next_wb nx"
  "next_mem (snd (decode_move c nx dm stall)) = next_mem nx"
  "next_fetch (snd (decode_move c nx dm stall)) = next_fetch nx"
  by (simp_all add: decode_move_def Let_def)

lemma fetch_stage_frame [simp]:
  "core_id (fst (fetch_stage c nx dfn)) = core_id c"
  "imem (fst (fetch_stage c nx dfn)) = imem c"
  "regs (fst (fetch_stage c nx dfn)) = regs c"
  "redirect_pc (fst (fetch_stage c nx dfn)) = redirect_pc c"
  "halted (fst (fetch_stage c nx dfn)) = halted c"
  "cdone (fst (fetch_stage c nx dfn)) = cdone c"
  "fetch (fst (fetch_stage c nx dfn)) = fetch c"
  "decode (fst (fetch_stage c nx dfn)) = decode c"
  "exec (fst (fetch_stage c nx dfn)) = exec c"
  "mem (fst (fetch_stage c nx dfn)) = mem c"
  "wb (fst (fetch_stage c nx dfn)) = wb c"
  "cache (fst (fetch_stage c nx dfn)) = cache c"
  "stats (fst (fetch_stage c nx dfn)) = stats c"
  "next_wb (snd (fetch_stage c nx dfn)) = next_wb nx"
  "next_mem (snd (fetch_stage c nx dfn)) = next_mem nx"
  "next_exec (snd (fetch_stage c nx dfn)) = next_exec nx"
  by (simp_all add: fetch_stage_def Let_def)

lemma latch_frame [simp]:
  "core_id (latch c nx) = core_id c"
  "imem (latch c nx) = imem c"
  "regs (latch c nx) = regs c"
  "cpc (latch c nx) = cpc c"
  "redirect_pending (latch c nx) = redirect_pending c"
  "redirect_pc (latch c nx) = redirect_pc c"
  "stop_fetch (latch c nx) = stop_fetch c"
  "halted (latch c nx) = halted c"
  "cache (latch c nx) = cache c"
  "stats (latch c nx) = stats c"
  "fetch (latch c nx) = next_fetch nx"
  "decode (latch c nx) = next_decode nx"
  "exec (latch c nx) = next_exec nx"
  "mem (latch c nx) = next_mem nx"
  "wb (latch c nx) = next_wb nx"
  by (simp_all add: latch_def Let_def)

lemma wb_commit_frame [simp]:
  "core_id (wb_commit c) = core_id c"
  "imem (wb_commit c) = imem c"
  "cpc (wb_commit c) = cpc c"
  "redirect_pending (wb_commit c) = redirect_pending c"
  "redirect_pc (wb_commit c) = redirect_pc c"
  "stop_fetch (wb_commit c) = stop_fetch c"
  "cdone (wb_commit c) = cdone c"
  "fetch (wb_commit c) = fetch c"
  "decode (wb_commit c) = decode c"
  "exec (wb_commit c) = exec c"
  "mem (wb_commit c) = mem c"
  "wb (wb_commit c) = wb c"
  "cache (wb_commit c) = cache c"
  "cycles (stats (wb_commit c)) = cycles (stats c)"
  "read_hit (stats (wb_commit c)) = read_hit (stats c)"
  "write_hit (stats (wb_commit c)) = write_hit (stats c)"
  "read_miss (stats (wb_commit c)) = read_miss (stats c)"
  "write_miss (stats (wb_commit c)) = write_miss (stats c)"
  "decode_stall (stats (wb_commit c)) = decode_stall (stats c)"
  "mem_stall (stats (wb_commit c)) = mem_stall (stats c)"
  by (simp_all add: wb_commit_def Let_def)

subsection \<open>The MEM stage by cases\<close>

lemma cache_lookup_holds:
  "cache_lookup ca a MESI_I = (holds ca a, if holds ca a then state ca (cache_index a) else MESI_I)"
  by (simp add: cache_lookup_def holds_def Let_def)

lemma mem_stage_invalid:
  "\<not> m_valid (mem c) \<Longrightarrow> mem_stage i c nx req = (c, nx, req, False)"
  by (simp add: mem_stage_def)

lemma mem_stage_waiting:
  "m_valid (mem c) \<Longrightarrow> waiting (mem c) \<Longrightarrow>
   mem_stage i c nx req =
     (c\<lparr>stats := (stats c)\<lparr>mem_stall := mem_stall (stats c) + 1\<rparr>\<rparr>, nx, req, False)"
  by (simp add: mem_stage_def)

lemma mem_stage_other:
  "m_valid (mem c) \<Longrightarrow> \<not> waiting (mem c) \<Longrightarrow> op (m_inst (mem c)) \<noteq> OP_LW \<Longrightarrow>
   op (m_inst (mem c)) \<noteq> OP_SW \<Longrightarrow>
   mem_stage i c nx req =
     (c, nx\<lparr>next_mem := (next_mem nx)\<lparr>m_valid := False\<rparr>,
            next_wb := \<lparr> w_valid = True, w_inst = m_inst (mem c), w_value = alu_result (mem c) \<rparr>\<rparr>,
      req, True)"
  by (simp add: mem_stage_def)

lemma mem_stage_bus:
  assumes "m_valid (mem c)" "\<not> waiting (mem c)"
    "op (m_inst (mem c)) = OP_LW \<or> op (m_inst (mem c)) = OP_SW"
    "\<not> holds (cache c) (mem_addr (mem c))
     \<or> (op (m_inst (mem c)) = OP_SW \<and> state (cache c) (cache_index (mem_addr (mem c))) = MESI_S)"
  shows "mem_stage i c nx req =
     (let c1 = (if \<not> miss (mem c)
                then count_access c (holds (cache c) (mem_addr (mem c)))
                       (if holds (cache c) (mem_addr (mem c))
                        then state (cache c) (cache_index (mem_addr (mem c))) else MESI_I)
                else c);
          c2 = (if \<not> request_queued (mem c)
                then c1\<lparr>mem := (mem c1)\<lparr>request_queued := True\<rparr>\<rparr> else c1)
      in (c2\<lparr>stats := (stats c2)\<lparr>mem_stall := mem_stall (stats c2) + 1\<rparr>\<rparr>,
          nx\<lparr>next_mem := (next_mem nx)\<lparr>miss := True, waiting := True\<rparr>\<rparr>,
          if \<not> request_queued (mem c)
          then req\<lparr>active := True,
                   r_cmd := (if op (m_inst (mem c)) = OP_LW then BUS_RD else BUS_RDX),
                   r_addr := mem_addr (mem c) AND (push_bit 20 1 - 1), r_origin := i\<rparr>
          else req,
          False))"
  using assms
  by (auto simp add: mem_stage_def cache_lookup_holds Let_def holds_def)

lemma mem_stage_load_hit:
  assumes "m_valid (mem c)" "\<not> waiting (mem c)" "op (m_inst (mem c)) = OP_LW"
    "holds (cache c) (mem_addr (mem c))"
  shows "mem_stage i c nx req =
     (if \<not> miss (mem c)
      then count_access c True (state (cache c) (cache_index (mem_addr (mem c)))) else c,
      nx\<lparr>next_mem := (next_mem nx)\<lparr>load_value := cache_read (cache c) (mem_addr (mem c)),
                                     m_valid := False\<rparr>,
         next_wb := \<lparr> w_valid = True, w_inst = m_inst (mem c),
                      w_value = cache_read (cache c) (mem_addr (mem c)) \<rparr>\<rparr>,
      req, True)"
  using assms
  by (auto simp add: mem_stage_def cache_lookup_holds Let_def holds_def op_defs)

lemma mem_stage_store_hit:
  assumes "m_valid (mem c)" "\<not> waiting (mem c)" "op (m_inst (mem c)) = OP_SW"
    "holds (cache c) (mem_addr (mem c))"
    "state (cache c) (cache_index (mem_addr (mem c))) \<noteq> MESI_S"
  shows "mem_stage i c nx req =
     (let c1 = (if \<not> miss (mem c)
                then count_access c True (state (cache c) (cache_index (mem_addr (mem c)))) else c);
          ca = cache_write (cache c) (mem_addr (mem c)) (store_data (mem c));
          ca1 = (if state (cache c) (cache_index (mem_addr (mem c))) = MESI_E
                 then ca\<lparr>state := (state ca)(cache_index (mem_addr (mem c)) := MESI_M)\<rparr> else ca)
      in (c1\<lparr>cache := ca1\<rparr>,
          nx\<lparr>next_mem := (next_mem nx)\<lparr>m_valid := False\<rparr>,
             next_wb := \<lparr> w_valid = True, w_inst = m_inst (mem c), w_value = 0 \<rparr>\<rparr>,
          req, True))"
  using assms
  by (auto simp add: mem_stage_def cache_lookup_holds Let_def holds_def op_defs)

subsection \<open>One iteration of the pipeline loop, field by field\<close>

lemma pa_fields:
  "cache (fst (pipeline_advance i c req)) = cache (fst (mem_out i c req))"
  "snd (pipeline_advance i c req) = fst (snd (snd (mem_out i c req)))"
  "wb (fst (pipeline_advance i c req)) = next_wb (fst (snd (mem_out i c req)))"
  "mem (fst (pipeline_advance i c req)) =
     next_mem (fst (exec_stage (fst (mem_out i c req)) (fst (snd (mem_out i c req)))
                      (snd (snd (snd (mem_out i c req))))))"
  "regs (fst (pipeline_advance i c req)) =
     (if d_valid (decode c) then (regs c)(1 := imm (d_inst (decode c))) else regs c)"
  "imem (fst (pipeline_advance i c req)) = imem c"
  "core_id (fst (pipeline_advance i c req)) = core_id c"
  "halted (fst (pipeline_advance i c req)) = halted c"
  "read_hit (stats (fst (pipeline_advance i c req))) = read_hit (stats (fst (mem_out i c req)))"
  "write_hit (stats (fst (pipeline_advance i c req))) = write_hit (stats (fst (mem_out i c req)))"
  "read_miss (stats (fst (pipeline_advance i c req))) = read_miss (stats (fst (mem_out i c req)))"
  "write_miss (stats (fst (pipeline_advance i c req))) = write_miss (stats (fst (mem_out i c req)))"
  "mem_stall (stats (fst (pipeline_advance i c req))) = mem_stall (stats (fst (mem_out i c req)))"
  "instructions (stats (fst (pipeline_advance i c req))) = instructions (stats c)"
  by (simp_all add: pipeline_advance_def mem_out_def split_beta Let_def fun_eq_iff)

lemma exec_stage_blocked:
  "m_valid (mem c) \<Longrightarrow> exec_stage c nx False = (nx, \<not> e_valid (exec c))"
  by (simp add: exec_stage_def)

lemma mem_out_waiting:
  "m_valid (mem c) \<Longrightarrow> waiting (mem c) \<Longrightarrow>
   mem_out i c req =
     ((bump_cycles c)\<lparr>stats := (stats (bump_cycles c))
                          \<lparr>mem_stall := mem_stall (stats (bump_cycles c)) + 1\<rparr>\<rparr>,
      init_next (bump_cycles c), req, False)"
  by (simp add: mem_out_def mem_stage_waiting)

text \<open>
  Claim C5, as the code has it. An \<open>SW\<close> in the Memory stage (not waiting) whose lookup
  finds the block in state S keeps the instruction in the stage with \<open>miss\<close> and \<open>waiting\<close>
  set, leaves the cache alone, posts the request \<open>(BusRdX, addr mod 2^20, origin i)\<close> in
  the core's slot (when \<open>request_queued\<close> is clear), and, guarded by the sticky \<open>miss\<close>
  flag, increments \<open>write_hit\<close> once; \<open>write_miss\<close> is not incremented. While the stage
  waits, the request slot, both counters and the latch stay as they are.
\<close>

theorem store_upgrade:
  assumes v: "m_valid (mem c)" and sw: "op (m_inst (mem c)) = OP_SW"
  shows "(\<not> waiting (mem c) \<and> holds (cache c) (mem_addr (mem c))
          \<and> state (cache c) (cache_index (mem_addr (mem c))) = MESI_S \<longrightarrow>
            (case pipeline_advance i c req of (c', req') \<Rightarrow>
               miss (mem c') \<and> waiting (mem c') \<and> m_valid (mem c')
             \<and> m_inst (mem c') = m_inst (mem c) \<and> cache c' = cache c
             \<and> (\<not> request_queued (mem c) \<longrightarrow>
                   req' = req\<lparr>active := True, r_cmd := BUS_RDX,
                              r_addr := mem_addr (mem c) AND (push_bit 20 1 - 1), r_origin := i\<rparr>)
             \<and> write_miss (stats c') = write_miss (stats c)
             \<and> write_hit (stats c') =
                 (if miss (mem c) then write_hit (stats c) else write_hit (stats c) + 1)))
       \<and> (waiting (mem c) \<longrightarrow>
            (case pipeline_advance i c req of (c', req') \<Rightarrow>
               req' = req \<and> mem c' = mem c \<and> cache c' = cache c
             \<and> write_miss (stats c') = write_miss (stats c)
             \<and> write_hit (stats c') = write_hit (stats c)))"
proof (intro conjI impI)
  assume h: "\<not> waiting (mem c) \<and> holds (cache c) (mem_addr (mem c))
          \<and> state (cache c) (cache_index (mem_addr (mem c))) = MESI_S"
  have ne: "OP_SW \<noteq> OP_LW" by (simp add: op_defs)
  have mo: "mem_out i c req =
     (let b = bump_cycles c;
          c1 = (if \<not> miss (mem c) then count_access b True MESI_S else b);
          c2 = (if \<not> request_queued (mem c)
                then c1\<lparr>mem := (mem c1)\<lparr>request_queued := True\<rparr>\<rparr> else c1)
      in (c2\<lparr>stats := (stats c2)\<lparr>mem_stall := mem_stall (stats c2) + 1\<rparr>\<rparr>,
          (init_next b)\<lparr>next_mem := (next_mem (init_next b))\<lparr>miss := True, waiting := True\<rparr>\<rparr>,
          if \<not> request_queued (mem c)
          then req\<lparr>active := True, r_cmd := BUS_RDX,
                   r_addr := mem_addr (mem c) AND (push_bit 20 1 - 1), r_origin := i\<rparr>
          else req,
          False))"
    unfolding mem_out_def using v sw h ne
    by (subst mem_stage_bus) (simp_all add: Let_def)
  have mv: "m_valid (mem (fst (mem_out i c req)))"
    using v by (simp add: mem_out_def)
  have ex: "exec_stage (fst (mem_out i c req)) (fst (snd (mem_out i c req))) False =
            (fst (snd (mem_out i c req)), \<not> e_valid (exec (fst (mem_out i c req))))"
    using mv by (rule exec_stage_blocked)
  have adv: "snd (snd (snd (mem_out i c req))) = False" by (simp add: mo Let_def)
  show "case pipeline_advance i c req of (c', req') \<Rightarrow>
               miss (mem c') \<and> waiting (mem c') \<and> m_valid (mem c')
             \<and> m_inst (mem c') = m_inst (mem c) \<and> cache c' = cache c
             \<and> (\<not> request_queued (mem c) \<longrightarrow>
                   req' = req\<lparr>active := True, r_cmd := BUS_RDX,
                              r_addr := mem_addr (mem c) AND (push_bit 20 1 - 1), r_origin := i\<rparr>)
             \<and> write_miss (stats c') = write_miss (stats c)
             \<and> write_hit (stats c') =
                 (if miss (mem c) then write_hit (stats c) else write_hit (stats c) + 1)"
    unfolding split_beta pa_fields adv ex fst_conv
    using v sw ne by (simp add: mo Let_def count_access_def const_defs)
next
  assume w: "waiting (mem c)"
  have mv: "m_valid (mem (fst (mem_out i c req)))"
    using v by (simp add: mem_out_def)
  have ex: "exec_stage (fst (mem_out i c req)) (fst (snd (mem_out i c req))) False =
            (fst (snd (mem_out i c req)), \<not> e_valid (exec (fst (mem_out i c req))))"
    using mv by (rule exec_stage_blocked)
  have adv: "snd (snd (snd (mem_out i c req))) = False" by (simp add: mem_out_waiting v w)
  show "case pipeline_advance i c req of (c', req') \<Rightarrow>
               req' = req \<and> mem c' = mem c \<and> cache c' = cache c
             \<and> write_miss (stats c') = write_miss (stats c)
             \<and> write_hit (stats c') = write_hit (stats c)"
    unfolding split_beta pa_fields adv ex fst_conv
    by (simp add: mem_out_waiting v w)
qed

lemma wit_store_core_simps:
  "m_valid (mem wit_store_core)" "op (m_inst (mem wit_store_core)) = OP_SW"
  "\<not> waiting (mem wit_store_core)" "\<not> miss (mem wit_store_core)"
  "\<not> request_queued (mem wit_store_core)"
  "holds (cache wit_store_core) (mem_addr (mem wit_store_core))"
  "state (cache wit_store_core) (cache_index (mem_addr (mem wit_store_core))) = MESI_S"
  "write_miss (stats wit_store_core) = 0" "write_hit (stats wit_store_core) = 0"
  by (simp_all add: wit_store_core_def zero_mem_stage_def decode_inst_def wit_cache_def holds_def
      cache_index_div cache_tag_def init_core_def zero_stats_def const_defs op_defs)

theorem store_upgrade_witness:
  "m_valid (mem wit_store_core) \<and> op (m_inst (mem wit_store_core)) = OP_SW
   \<and> \<not> waiting (mem wit_store_core)
   \<and> holds (cache wit_store_core) (mem_addr (mem wit_store_core))
   \<and> state (cache wit_store_core) (cache_index (mem_addr (mem wit_store_core))) = MESI_S
   \<and> waiting (mem (fst (pipeline_advance 0 wit_store_core wit_slot)))
   \<and> active (snd (pipeline_advance 0 wit_store_core wit_slot))
   \<and> r_cmd (snd (pipeline_advance 0 wit_store_core wit_slot)) = BUS_RDX
   \<and> write_hit (stats (fst (pipeline_advance 0 wit_store_core wit_slot))) = 1"
  using store_upgrade [of wit_store_core 0 wit_slot]
  by (simp add: wit_store_core_simps split_beta)

text \<open>
  Claim C5 as stated fails: at the first lookup of the \<open>SW\<close> (sticky \<open>miss\<close> flag clear, line
  in state S) \<open>write_miss\<close> stays 0 where the claim asks for an increment.
\<close>

theorem store_upgrade_counts_hit:
  "m_valid (mem wit_store_core) \<and> op (m_inst (mem wit_store_core)) = OP_SW
   \<and> \<not> waiting (mem wit_store_core) \<and> \<not> miss (mem wit_store_core)
   \<and> holds (cache wit_store_core) (mem_addr (mem wit_store_core))
   \<and> state (cache wit_store_core) (cache_index (mem_addr (mem wit_store_core))) = MESI_S
   \<and> write_miss (stats (fst (pipeline_advance 0 wit_store_core wit_slot)))
       \<noteq> write_miss (stats wit_store_core) + 1
   \<and> write_miss (stats (fst (pipeline_advance 0 wit_store_core wit_slot))) = 0
   \<and> write_hit (stats (fst (pipeline_advance 0 wit_store_core wit_slot))) = 1"
proof -
  have mo: "mem_out 0 wit_store_core wit_slot =
      mem_stage 0 (bump_cycles wit_store_core) (init_next (bump_cycles wit_store_core)) wit_slot"
    by (simp add: mem_out_def)
  have "write_miss (stats (fst (mem_out 0 wit_store_core wit_slot))) = 0
      \<and> write_hit (stats (fst (mem_out 0 wit_store_core wit_slot))) = 1"
    unfolding mo
    by (subst mem_stage_bus; simp add: wit_store_core_simps Let_def count_access_def const_defs op_defs)+
  then show ?thesis by (simp add: wit_store_core_simps pa_fields)
qed

subsection \<open>Timing of a memory-sourced transaction\<close>

lemma cores_cycle_bus [simp]: "bus (cores_cycle s) = reset_bus_out (bus s)"
  by (simp add: cores_cycle_def pipeline_phase_eq wb_phase_eq)

lemma reset_bus_out_fields [simp]:
  "phase (reset_bus_out b) = phase b" "delay (reset_bus_out b) = delay b"
  "bus_cmd_out (reset_bus_out b) = BUS_NONE" "index (reset_bus_out b) = index b"
  "cmd (reset_bus_out b) = cmd b" "origin (reset_bus_out b) = origin b"
  "addr (reset_bus_out b) = addr b" "shared (reset_bus_out b) = shared b"
  "provider (reset_bus_out b) = provider b" "block (reset_bus_out b) = block b"
  by (simp_all add: reset_bus_out_def)

lemma cycle_step_wait:
  assumes "phase (bus s) = 1" "delay (bus s) > 0"
  shows "bus (cycle_step s) = (reset_bus_out (bus s))\<lparr>delay := delay (bus s) - 1\<rparr>"
  using assms
  by (simp add: cycle_step_def bus_cycle_def arbitrate_def bus_output_def bus_advance_def Let_def)

lemma cycle_step_flush_start:
  assumes "phase (bus s) = 1" "delay (bus s) = 0"
  shows "bus (cycle_step s) =
           (drive_flush ((reset_bus_out (bus s))\<lparr>phase := 2, index := 0\<rparr>))\<lparr>index := 1\<rparr>"
  using assms
  by (simp add: cycle_step_def bus_cycle_def arbitrate_def bus_output_def bus_advance_def Let_def
      drive_flush_def BUS_FLUSH_def BLOCK_WORDS_def)

lemma wait_countdown:
  assumes "phase (bus s) = 1" "delay (bus s) = d" "0 < k" "k \<le> d"
  shows "bus ((cycle_step ^^ nat k) s) = (reset_bus_out (bus s))\<lparr>delay := d - k\<rparr>"
  using assms(3,4)
proof (induction "nat k" arbitrary: k)
  case 0
  then show ?case by simp
next
  case (Suc n)
  show ?case
  proof (cases "n = 0")
    case True
    with Suc have k: "k = 1" by simp
    show ?thesis using assms(1,2) Suc.prems unfolding k
      by (simp add: cycle_step_wait)
  next
    case False
    with Suc have n: "n = nat (k - 1)" "0 < k - 1" "k - 1 \<le> d" by simp_all
    from Suc.hyps(1)[OF n] have
      ih: "bus ((cycle_step ^^ nat (k - 1)) s) = (reset_bus_out (bus s))\<lparr>delay := d - (k - 1)\<rparr>" .
    have "nat k = Suc (nat (k - 1))" using Suc by simp
    then have "bus ((cycle_step ^^ nat k) s) = bus (cycle_step ((cycle_step ^^ nat (k - 1)) s))"
      by simp
    also have "\<dots> = (reset_bus_out (bus s))\<lparr>delay := d - k\<rparr>"
      using assms(1) Suc.prems
      by (subst cycle_step_wait) (simp_all add: ih reset_bus_out_def)
    finally show ?thesis .
  qed
qed

text \<open>
  Claim C7. Let a transaction start (idle bus, a slot chosen, command BusRd or BusRdX) whose
  snoop finds no cache provider. Then \<open>start_bus_transaction\<close> sets the latency counter to
  16 and the command is driven in that cycle; in each of the next 15 cycles the counter is
  still positive when the bus output is determined, the phase stays Wait and the bus drives
  \<open>BUS_NONE\<close>; in the 16th cycle after the command cycle the counter is 0 at the start of
  the cycle, the phase becomes Flush in that same cycle and the first \<open>FLUSH\<close> word (word
  0 of the staged block, from provider 4, at the block base address) is driven.
\<close>

theorem memory_latency:
  assumes idle: "phase (bus t) = 0"
    and ch: "choose_slot (requests t) (rr_next t) core_range = w" "w \<noteq> -1"
    and cm: "r_cmd (requests t w) = BUS_RD \<or> r_cmd (requests t w) = BUS_RDX"
    and np: "snoop_provider (cores t) (requests t w) = -1"
  shows "delay (bus (arbitrate t)) = 16
       \<and> bus_cmd_out (bus (bus_cycle t)) = r_cmd (requests t w)
       \<and> (\<forall>k\<in>{1..15}. bus_cmd_out (bus ((cycle_step ^^ nat k) (bus_cycle t))) = BUS_NONE
                      \<and> phase (bus ((cycle_step ^^ nat k) (bus_cycle t))) = 1
                      \<and> delay (bus ((cycle_step ^^ nat (k - 1)) (bus_cycle t))) > 0)
       \<and> delay (bus ((cycle_step ^^ 15) (bus_cycle t))) = 0
       \<and> phase (bus ((cycle_step ^^ 16) (bus_cycle t))) = 2
       \<and> bus_cmd_out (bus ((cycle_step ^^ 16) (bus_cycle t))) = BUS_FLUSH
       \<and> bus_origid_out (bus ((cycle_step ^^ 16) (bus_cycle t))) = 4
       \<and> bus_addr_out (bus ((cycle_step ^^ 16) (bus_cycle t))) = block_base (r_addr (requests t w))
       \<and> bus_data_out (bus ((cycle_step ^^ 16) (bus_cycle t))) =
           main_mem t (block_base (r_addr (requests t w)) AND (MAIN_MEM_WORDS - 1))"
proof -
  let ?st = "fst (start_bus_transaction (bus t) (requests t w) (cores t) (main_mem t))"
  let ?s1 = "bus_cycle t"
  have arb: "bus (arbitrate t) = ?st"
    using idle ch by (simp add: arbitrate_def Let_def split_beta)
  have d16: "delay (bus (arbitrate t)) = 16" by (simp add: arb start_bus_fields np)
  have b1: "bus ?s1 = ?st\<lparr>delay := 15\<rparr>"
    by (simp add: bus_cycle_def bus_output_def bus_advance_def Let_def arb start_bus_fields np)
  have p1: "phase (bus ?s1) = 1" "delay (bus ?s1) = 15" by (simp_all add: b1 start_bus_fields)
  have c2: "bus_cmd_out (bus ?s1) = r_cmd (requests t w)" by (simp add: b1 start_bus_fields)
  have w: "\<And>k. 0 < k \<Longrightarrow> k \<le> 15 \<Longrightarrow>
            bus ((cycle_step ^^ nat k) ?s1) = (reset_bus_out (bus ?s1))\<lparr>delay := 15 - k\<rparr>"
    using wait_countdown[OF p1] by simp
  have c3: "\<forall>k\<in>{1..15}. bus_cmd_out (bus ((cycle_step ^^ nat k) ?s1)) = BUS_NONE
                      \<and> phase (bus ((cycle_step ^^ nat k) ?s1)) = 1
                      \<and> delay (bus ((cycle_step ^^ nat (k - 1)) ?s1)) > 0"
  proof
    fix k :: int assume k: "k \<in> {1..15}"
    then have "0 < k" "k \<le> 15" by simp_all
    from w[OF this] have a: "bus_cmd_out (bus ((cycle_step ^^ nat k) ?s1)) = BUS_NONE"
      "phase (bus ((cycle_step ^^ nat k) ?s1)) = 1" by (simp_all add: p1)
    have "delay (bus ((cycle_step ^^ nat (k - 1)) ?s1)) > 0"
    proof (cases "k = 1")
      case True then show ?thesis by (simp add: p1)
    next
      case False
      with k have "0 < k - 1" "k - 1 \<le> 15" by simp_all
      from w[OF this] k show ?thesis by simp
    qed
    with a show "bus_cmd_out (bus ((cycle_step ^^ nat k) ?s1)) = BUS_NONE
                      \<and> phase (bus ((cycle_step ^^ nat k) ?s1)) = 1
                      \<and> delay (bus ((cycle_step ^^ nat (k - 1)) ?s1)) > 0" by simp
  qed
  have b15: "bus ((cycle_step ^^ 15) ?s1) = (reset_bus_out (bus ?s1))\<lparr>delay := 0\<rparr>"
    using w[of 15] by simp
  have "(16::nat) = Suc 15" by simp
  then have "(cycle_step ^^ 16) ?s1 = cycle_step ((cycle_step ^^ 15) ?s1)"
    by (simp only: funpow.simps o_apply)
  then have b16: "bus ((cycle_step ^^ 16) ?s1) =
      (drive_flush ((reset_bus_out (bus ((cycle_step ^^ 15) ?s1)))\<lparr>phase := 2, index := 0\<rparr>))
        \<lparr>index := 1\<rparr>"
    using cycle_step_flush_start[of "(cycle_step ^^ 15) ?s1"] by (simp add: b15 p1)
  have c4: "delay (bus ((cycle_step ^^ 15) ?s1)) = 0" by (simp add: b15)
  have c5: "phase (bus ((cycle_step ^^ 16) ?s1)) = 2"
    "bus_cmd_out (bus ((cycle_step ^^ 16) ?s1)) = BUS_FLUSH"
    "bus_origid_out (bus ((cycle_step ^^ 16) ?s1)) = 4"
    "bus_addr_out (bus ((cycle_step ^^ 16) ?s1)) = block_base (r_addr (requests t w))"
    "bus_data_out (bus ((cycle_step ^^ 16) ?s1)) =
           main_mem t (block_base (r_addr (requests t w)) AND (MAIN_MEM_WORDS - 1))"
    unfolding b16 b15 b1
    by (simp_all add: drive_flush_def start_bus_fields np)
  from d16 c2 c3 c4 c5 show ?thesis by blast
qed

lemma init_core_cache [simp]:
  "cache (init_core i im) = \<lparr> data = (\<lambda>_. 0), tag = (\<lambda>_. 0), state = (\<lambda>_. 0) \<rparr>"
  by (simp add: init_core_def Let_def)

theorem memory_latency_witness:
  "phase (bus wit_mem_sim) = 0
   \<and> choose_slot (requests wit_mem_sim) (rr_next wit_mem_sim) core_range = 2
   \<and> r_cmd (requests wit_mem_sim 2) = BUS_RD
   \<and> snoop_provider (cores wit_mem_sim) (requests wit_mem_sim 2) = -1
   \<and> bus_cmd_out (bus (bus_cycle wit_mem_sim)) = BUS_RD
   \<and> bus_cmd_out (bus ((cycle_step ^^ 15) (bus_cycle wit_mem_sim))) = BUS_NONE
   \<and> bus_cmd_out (bus ((cycle_step ^^ 16) (bus_cycle wit_mem_sim))) = BUS_FLUSH"
proof -
  have h: "phase (bus wit_mem_sim) = 0"
    "choose_slot (requests wit_mem_sim) (rr_next wit_mem_sim) core_range = 2"
    "r_cmd (requests wit_mem_sim 2) = BUS_RD"
    "snoop_provider (cores wit_mem_sim) (requests wit_mem_sim 2) = -1"
    by (simp_all add: wit_mem_sim_def wit_sim_def zero_bus_def choose_slot_core_range
        snoop_provider_def snoop_hit_M_def snoop_hit_def holds_def const_defs)
  note T = memory_latency [of wit_mem_sim 2, OF h(1) h(2)]
  have T': "bus_cmd_out (bus (bus_cycle wit_mem_sim)) = r_cmd (requests wit_mem_sim 2)
      \<and> (\<forall>k\<in>{1..15}. bus_cmd_out (bus ((cycle_step ^^ nat k) (bus_cycle wit_mem_sim))) = BUS_NONE
                      \<and> phase (bus ((cycle_step ^^ nat k) (bus_cycle wit_mem_sim))) = 1
                      \<and> delay (bus ((cycle_step ^^ nat (k - 1)) (bus_cycle wit_mem_sim))) > 0)
      \<and> bus_cmd_out (bus ((cycle_step ^^ 16) (bus_cycle wit_mem_sim))) = BUS_FLUSH"
    using T h(3,4) by simp
  then have "bus_cmd_out (bus ((cycle_step ^^ nat 15) (bus_cycle wit_mem_sim))) = BUS_NONE"
    by (metis atLeastAtMost_iff one_le_numeral order_refl)
  with T' h show ?thesis by simp
qed

subsection \<open>The MEM stage inside \<open>pipeline_advance\<close>, by cases\<close>

lemma mem_out_cases [case_names invalid waiting other bus load store]:
  obtains
    (invalid) "\<not> m_valid (mem c)"
      "mem_out i c req = (bump_cycles c, init_next (bump_cycles c), req, False)"
  | (waiting) "m_valid (mem c)" "waiting (mem c)"
      "mem_out i c req =
         ((bump_cycles c)\<lparr>stats := (stats (bump_cycles c))
                              \<lparr>mem_stall := mem_stall (stats (bump_cycles c)) + 1\<rparr>\<rparr>,
          init_next (bump_cycles c), req, False)"
  | (other) "m_valid (mem c)" "\<not> waiting (mem c)"
      "op (m_inst (mem c)) \<noteq> OP_LW" "op (m_inst (mem c)) \<noteq> OP_SW"
      "mem_out i c req =
         (bump_cycles c,
          (init_next (bump_cycles c))
            \<lparr>next_mem := (mem c)\<lparr>m_valid := False\<rparr>,
             next_wb := \<lparr> w_valid = True, w_inst = m_inst (mem c), w_value = alu_result (mem c) \<rparr>\<rparr>,
          req, True)"
  | (bus) "m_valid (mem c)" "\<not> waiting (mem c)"
      "op (m_inst (mem c)) = OP_LW \<or> op (m_inst (mem c)) = OP_SW"
      "\<not> holds (cache c) (mem_addr (mem c))
       \<or> (op (m_inst (mem c)) = OP_SW \<and> state (cache c) (cache_index (mem_addr (mem c))) = MESI_S)"
      "cache (fst (mem_out i c req)) = cache c"
      "fst (snd (mem_out i c req)) =
         (init_next (bump_cycles c))\<lparr>next_mem := (mem c)\<lparr>miss := True, waiting := True\<rparr>\<rparr>"
      "fst (snd (snd (mem_out i c req))) =
         (if \<not> request_queued (mem c)
          then req\<lparr>active := True,
                   r_cmd := (if op (m_inst (mem c)) = OP_LW then BUS_RD else BUS_RDX),
                   r_addr := mem_addr (mem c) AND (push_bit 20 1 - 1), r_origin := i\<rparr>
          else req)"
      "snd (snd (snd (mem_out i c req))) = False"
  | (load) "m_valid (mem c)" "\<not> waiting (mem c)" "op (m_inst (mem c)) = OP_LW"
      "holds (cache c) (mem_addr (mem c))"
      "mem_out i c req =
         (if \<not> miss (mem c)
          then count_access (bump_cycles c) True (state (cache c) (cache_index (mem_addr (mem c))))
          else bump_cycles c,
          (init_next (bump_cycles c))
            \<lparr>next_mem := (mem c)\<lparr>load_value := cache_read (cache c) (mem_addr (mem c)),
                                  m_valid := False\<rparr>,
             next_wb := \<lparr> w_valid = True, w_inst = m_inst (mem c),
                          w_value = cache_read (cache c) (mem_addr (mem c)) \<rparr>\<rparr>,
          req, True)"
  | (store) "m_valid (mem c)" "\<not> waiting (mem c)" "op (m_inst (mem c)) = OP_SW"
      "holds (cache c) (mem_addr (mem c))"
      "state (cache c) (cache_index (mem_addr (mem c))) \<noteq> MESI_S"
      "cache (fst (mem_out i c req)) =
         (let ca = cache_write (cache c) (mem_addr (mem c)) (store_data (mem c))
          in if state (cache c) (cache_index (mem_addr (mem c))) = MESI_E
             then ca\<lparr>state := (state ca)(cache_index (mem_addr (mem c)) := MESI_M)\<rparr> else ca)"
      "fst (snd (mem_out i c req)) =
         (init_next (bump_cycles c))
            \<lparr>next_mem := (mem c)\<lparr>m_valid := False\<rparr>,
             next_wb := \<lparr> w_valid = True, w_inst = m_inst (mem c), w_value = 0 \<rparr>\<rparr>"
      "fst (snd (snd (mem_out i c req))) = req"
      "snd (snd (snd (mem_out i c req))) = True"
proof -
  consider
      "\<not> m_valid (mem c)"
    | "m_valid (mem c)" "waiting (mem c)"
    | "m_valid (mem c)" "\<not> waiting (mem c)" "op (m_inst (mem c)) \<noteq> OP_LW"
        "op (m_inst (mem c)) \<noteq> OP_SW"
    | "m_valid (mem c)" "\<not> waiting (mem c)"
        "op (m_inst (mem c)) = OP_LW \<or> op (m_inst (mem c)) = OP_SW"
        "\<not> holds (cache c) (mem_addr (mem c))
         \<or> (op (m_inst (mem c)) = OP_SW
             \<and> state (cache c) (cache_index (mem_addr (mem c))) = MESI_S)"
    | "m_valid (mem c)" "\<not> waiting (mem c)" "op (m_inst (mem c)) = OP_LW"
        "holds (cache c) (mem_addr (mem c))"
    | "m_valid (mem c)" "\<not> waiting (mem c)" "op (m_inst (mem c)) = OP_SW"
        "holds (cache c) (mem_addr (mem c))"
        "state (cache c) (cache_index (mem_addr (mem c))) \<noteq> MESI_S"
    by blast
  then show thesis
  proof cases
    case 1
    then show ?thesis by (intro invalid) (simp_all add: mem_out_def mem_stage_invalid)
  next
    case 2
    then show ?thesis by (intro waiting) (simp_all add: mem_out_def mem_stage_waiting)
  next
    case 3
    then show ?thesis by (intro other) (simp_all add: mem_out_def mem_stage_other)
  next
    case 4
    then have e: "mem_out i c req = (let b = bump_cycles c;
          c1 = (if \<not> miss (mem b)
                then count_access b (holds (cache b) (mem_addr (mem b)))
                       (if holds (cache b) (mem_addr (mem b))
                        then state (cache b) (cache_index (mem_addr (mem b))) else MESI_I)
                else b);
          c2 = (if \<not> request_queued (mem b)
                then c1\<lparr>mem := (mem c1)\<lparr>request_queued := True\<rparr>\<rparr> else c1)
      in (c2\<lparr>stats := (stats c2)\<lparr>mem_stall := mem_stall (stats c2) + 1\<rparr>\<rparr>,
          (init_next b)\<lparr>next_mem := (next_mem (init_next b))\<lparr>miss := True, waiting := True\<rparr>\<rparr>,
          if \<not> request_queued (mem b)
          then req\<lparr>active := True,
                   r_cmd := (if op (m_inst (mem b)) = OP_LW then BUS_RD else BUS_RDX),
                   r_addr := mem_addr (mem b) AND (push_bit 20 1 - 1), r_origin := i\<rparr>
          else req,
          False))"
      unfolding mem_out_def by (subst mem_stage_bus) (simp_all add: Let_def)
    from 4 show ?thesis by (intro bus) (simp_all add: e Let_def)
  next
    case 5
    then show ?thesis
      by (intro load) (simp_all add: mem_out_def mem_stage_load_hit)
  next
    case 6
    then have e: "mem_out i c req = (let b = bump_cycles c;
          c1 = (if \<not> miss (mem b)
                then count_access b True (state (cache b) (cache_index (mem_addr (mem b)))) else b);
          ca = cache_write (cache b) (mem_addr (mem b)) (store_data (mem b));
          ca1 = (if state (cache b) (cache_index (mem_addr (mem b))) = MESI_E
                 then ca\<lparr>state := (state ca)(cache_index (mem_addr (mem b)) := MESI_M)\<rparr> else ca)
      in (c1\<lparr>cache := ca1\<rparr>,
          (init_next b)\<lparr>next_mem := (next_mem (init_next b))\<lparr>m_valid := False\<rparr>,
             next_wb := \<lparr> w_valid = True, w_inst = m_inst (mem b), w_value = 0 \<rparr>\<rparr>,
          req, True))"
      unfolding mem_out_def by (subst mem_stage_store_hit) (simp_all add: Let_def)
    from 6 show ?thesis by (intro store) (simp_all add: e Let_def)
  qed
qed

subsection \<open>The tail of \<open>pipeline_advance\<close>\<close>

lemma hazard_iter_cong:
  "exec c = exec c' \<Longrightarrow> m_valid (mem c) = m_valid (mem c') \<Longrightarrow>
   m_inst (mem c) = m_inst (mem c') \<Longrightarrow> wb c = wb c' \<Longrightarrow> hazard_iter c = hazard_iter c'"
  by (simp add: hazard_iter_def fun_eq_iff)

lemma data_hazard_cong:
  "exec c = exec c' \<Longrightarrow> m_valid (mem c) = m_valid (mem c') \<Longrightarrow>
   m_inst (mem c) = m_inst (mem c') \<Longrightarrow> wb c = wb c' \<Longrightarrow> decode c = decode c' \<Longrightarrow>
   data_hazard c = data_hazard c'"
  unfolding data_hazard_def by (simp add: hazard_iter_cong[of c c'])

lemma decode_hazard_snd:
  "snd (decode_hazard c efn) = (d_valid (decode c) \<and> (\<not> efn \<or> data_hazard c))"
proof -
  have "hazard_iter (c\<lparr>regs := (regs c)(1 := imm (d_inst (decode c)))\<rparr>) = hazard_iter c"
    by (rule hazard_iter_cong) simp_all
  then show ?thesis by (simp add: decode_hazard_def Let_def data_hazard_def)
qed

lemma mem_out_frame [simp]:
  "regs (fst (mem_out i c req)) = regs c" "exec (fst (mem_out i c req)) = exec c"
  "decode (fst (mem_out i c req)) = decode c" "fetch (fst (mem_out i c req)) = fetch c"
  "wb (fst (mem_out i c req)) = wb c" "imem (fst (mem_out i c req)) = imem c"
  "cpc (fst (mem_out i c req)) = cpc c"
  "redirect_pending (fst (mem_out i c req)) = redirect_pending c"
  "redirect_pc (fst (mem_out i c req)) = redirect_pc c"
  "stop_fetch (fst (mem_out i c req)) = stop_fetch c"
  "halted (fst (mem_out i c req)) = halted c" "core_id (fst (mem_out i c req)) = core_id c"
  "m_valid (mem (fst (mem_out i c req))) = m_valid (mem c)"
  "m_inst (mem (fst (mem_out i c req))) = m_inst (mem c)"
  "next_exec (fst (snd (mem_out i c req))) = exec c"
  "next_decode (fst (snd (mem_out i c req))) = decode c"
  "next_fetch (fst (snd (mem_out i c req))) = fetch c"
  "instructions (stats (fst (mem_out i c req))) = instructions (stats c)"
  "decode_stall (stats (fst (mem_out i c req))) = decode_stall (stats c)"
  by (simp_all add: mem_out_def)

lemma pa_unfold:
  "fst (pipeline_advance i c req) =
     (let c1 = fst (mem_out i c req);
          nx2 = fst (exec_stage c1 (fst (snd (mem_out i c req))) (snd (snd (snd (mem_out i c req)))));
          c2 = fst (decode_hazard c1 (exec_free_of i c req));
          dm = decode_moves_of i c req;
          x3 = decode_move c2 nx2 dm (d_valid (decode c) \<and> \<not> dm);
          x4 = fetch_stage (fst x3) (snd x3) (\<not> d_valid (decode c) \<or> dm)
      in latch (fst x4) (snd x4))"
proof -
  let ?c1 = "fst (mem_out i c req)"
  let ?nx1 = "fst (snd (mem_out i c req))"
  let ?adv = "snd (snd (snd (mem_out i c req)))"
  let ?efn = "exec_free_of i c req"
  let ?dm = "decode_moves_of i c req"
  have dh: "data_hazard ?c1 = data_hazard c"
    by (rule data_hazard_cong) simp_all
  have efn: "snd (exec_stage ?c1 ?nx1 ?adv) = ?efn"
    by (simp add: exec_free_of_def)
  have stall: "snd (decode_hazard ?c1 ?efn) = (d_valid (decode c) \<and> \<not> ?dm)"
    by (auto simp: decode_hazard_snd dh decode_moves_of_def)
  have dv: "d_valid (decode (fst (decode_hazard ?c1 ?efn))) = d_valid (decode c)"
    by simp
  have dm: "(d_valid (decode c) \<and> \<not> (d_valid (decode c) \<and> \<not> ?dm) \<and> ?efn) = ?dm"
    by (auto simp: decode_moves_of_def)
  have dfn: "(\<not> d_valid (decode c) \<or> ?dm) = (\<not> d_valid (decode c) \<or> ?dm)" ..
  show ?thesis
    unfolding pipeline_advance_def Let_def split_beta mem_out_def[symmetric] fst_conv snd_conv
      efn stall dv dm
    by (rule refl)
qed

subsection \<open>The bus part of a cycle leaves the pipeline of every core alone\<close>

lemma same_pipe_refl [simp]: "same_pipe c c"
  unfolding same_pipe_def by (intro exI[of _ "cache c"] exI[of _ "waiting (mem c)"]) simp

lemma same_pipe_trans:
  assumes "same_pipe a b" "same_pipe b c"
  shows "same_pipe a c"
proof -
  from assms(1) obtain ca w where b: "b = a\<lparr>cache := ca, mem := (mem a)\<lparr>waiting := w\<rparr>\<rparr>"
    unfolding same_pipe_def by (elim exE)
  from assms(2) obtain ca' w' where "c = b\<lparr>cache := ca', mem := (mem b)\<lparr>waiting := w'\<rparr>\<rparr>"
    unfolding same_pipe_def by (elim exE)
  then have "c = a\<lparr>cache := ca', mem := (mem a)\<lparr>waiting := w'\<rparr>\<rparr>"
    by (simp add: b)
  then show ?thesis unfolding same_pipe_def by (intro exI[of _ ca'] exI[of _ w'])
qed

lemma same_pipe_cache [simp]: "same_pipe c (c\<lparr>cache := ca\<rparr>)"
  unfolding same_pipe_def by (intro exI[of _ ca] exI[of _ "waiting (mem c)"]) simp

lemma same_pipe_fields:
  assumes "same_pipe c c'"
  shows "regs c' = regs c" "decode c' = decode c" "fetch c' = fetch c" "exec c' = exec c"
    "wb c' = wb c" "cpc c' = cpc c" "redirect_pending c' = redirect_pending c"
    "redirect_pc c' = redirect_pc c" "stop_fetch c' = stop_fetch c" "halted c' = halted c"
    "cdone c' = cdone c" "stats c' = stats c" "imem c' = imem c" "core_id c' = core_id c"
    "m_valid (mem c') = m_valid (mem c)" "m_inst (mem c') = m_inst (mem c)"
    "alu_result (mem c') = alu_result (mem c)" "mem_addr (mem c') = mem_addr (mem c)"
    "store_data (mem c') = store_data (mem c)" "miss (mem c') = miss (mem c)"
    "request_queued (mem c') = request_queued (mem c)" "is_load (mem c') = is_load (mem c)"
    "is_store (mem c') = is_store (mem c)" "load_value (mem c') = load_value (mem c)"
  using assms unfolding same_pipe_def by auto

lemma snooped_same_pipe: "same_pipe (cs i) (snooped cs req i)"
  by (simp add: snooped_def)

lemma arbitrate_same_pipe: "same_pipe (cores t i) (cores (arbitrate t) i)"
  by (simp add: arbitrate_def Let_def split_beta start_bus_cores snooped_same_pipe)

lemma same_pipe_upd [simp]: "same_pipe c (c\<lparr>cache := ca, mem := (mem c)\<lparr>waiting := w\<rparr>\<rparr>)"
  unfolding same_pipe_def by (rule exI[of _ ca], rule exI[of _ w]) (rule refl)

lemma complete_core:
  "fst (complete_transaction b cs m) i =
     (if origin b < 0 \<or> origin b \<ge> NUM_CORES \<or> i \<noteq> origin b then cs i
      else if m_valid (mem (cs i)) \<and> waiting (mem (cs i)) then
        (cs i)\<lparr>cache := fst (fill_cache_line (cache (cs i)) (cache_index (addr b))
                                   (cache_tag (addr b)) (block b)
                                   (if cmd b = BUS_RD
                                    then (if shared b \<noteq> 0 then MESI_S else MESI_E)
                                    else MESI_M)
                                   (fold (\<lambda>k m'. m'((block_base (addr b) + word_of_int k)
                                                       AND (MAIN_MEM_WORDS - 1) := block b k))
                                         block_range m)),
                 mem := (mem (cs i))\<lparr>waiting := False\<rparr>\<rparr>
      else
        (cs i)\<lparr>cache := fst (fill_cache_line (cache (cs i)) (cache_index (addr b))
                                   (cache_tag (addr b)) (block b)
                                   (if cmd b = BUS_RD
                                    then (if shared b \<noteq> 0 then MESI_S else MESI_E)
                                    else MESI_M)
                                   (fold (\<lambda>k m'. m'((block_base (addr b) + word_of_int k)
                                                       AND (MAIN_MEM_WORDS - 1) := block b k))
                                         block_range m))\<rparr>)"
  by (simp add: complete_transaction_def Let_def split_beta)

lemma complete_same_pipe: "same_pipe (cs i) (fst (complete_transaction b cs m) i)"
  unfolding complete_core by simp

lemma bus_advance_same_pipe: "same_pipe (cores t i) (cores (bus_advance t) i)"
  by (simp add: bus_advance_def Let_def split_beta complete_same_pipe)

lemma bus_cycle_drive: "bus_cycle t = bus_advance (bus_drive t)"
  by (simp add: bus_cycle_def bus_drive_def)

lemma bus_drive_cores [simp]: "cores (bus_drive t) = cores (arbitrate t)"
  by (simp add: bus_drive_def)

lemma bus_cycle_same_pipe: "same_pipe (cores t i) (cores (bus_cycle t) i)"
  unfolding bus_cycle_drive
  using arbitrate_same_pipe[of t i] bus_advance_same_pipe[of "bus_drive t" i]
  by (auto intro: same_pipe_trans)

lemma cores_cycle_cores:
  "i \<in> {0..3} \<Longrightarrow>
   cores (cores_cycle s) i = fst (pipeline_advance i (wb_commit (cores s i)) (requests s i))"
  by (simp add: cores_cycle_def pipeline_phase_eq wb_phase_eq core_range_set)

lemma cores_cycle_requests:
  "i \<in> {0..3} \<Longrightarrow>
   requests (cores_cycle s) i = snd (pipeline_advance i (wb_commit (cores s i)) (requests s i))"
  by (simp add: cores_cycle_def pipeline_phase_eq wb_phase_eq core_range_set)

lemma cores_cycle_other [simp]:
  "rr_next (cores_cycle s) = rr_next s" "main_mem (cores_cycle s) = main_mem s"
  by (simp_all add: cores_cycle_def pipeline_phase_eq wb_phase_eq)

lemma cycle_step_same_pipe:
  "i \<in> {0..3} \<Longrightarrow>
   same_pipe (fst (pipeline_advance i (wb_commit (cores s i)) (requests s i)))
             (cores (cycle_step s) i)"
  using bus_cycle_same_pipe[of "cores_cycle s" i] by (simp add: cycle_step_def cores_cycle_cores)

subsection \<open>Decode and Fetch, field by field\<close>

lemma decode_move_fields:
  "next_exec (snd (decode_move c nx dm stall)) =
     (if dm then \<lparr> e_valid = True, e_inst = d_inst (decode c),
                     rs_val = regs c (rs (d_inst (decode c))),
                     rt_val = regs c (rt (d_inst (decode c))),
                     rd_val = regs c (rd (d_inst (decode c))) \<rparr>
      else next_exec nx)"
  "next_decode (snd (decode_move c nx dm stall)) =
     (if dm \<or> \<not> stall then (next_decode nx)\<lparr>d_valid := False\<rparr> else next_decode nx)"
  "redirect_pending (fst (decode_move c nx dm stall)) =
     (redirect_pending c \<or> (dm \<and> takes_redirect c))"
  "redirect_pc (fst (decode_move c nx dm stall)) =
     (if dm \<and> takes_redirect c then uint (regs c (rd (d_inst (decode c))) AND 0x3FF)
      else redirect_pc c)"
  by (auto simp add: decode_move_def takes_redirect_def Let_def)

lemma fetch_stage_fields:
  "next_decode (snd (fetch_stage c nx dfn)) =
     (if f_valid (fetch c) \<and> dfn then \<lparr> d_valid = True, d_inst = f_inst (fetch c) \<rparr>
      else next_decode nx)"
  "next_fetch (snd (fetch_stage c nx dfn)) =
     (if \<not> stop_fetch c \<and> dfn then
        \<lparr> f_valid = True,
          f_inst = decode_inst (imem c (if redirect_pending c then redirect_pc c else cpc c))
                     (if redirect_pending c then redirect_pc c else cpc c) \<rparr>
      else if f_valid (fetch c) \<and> dfn then (next_fetch nx)\<lparr>f_valid := False\<rparr>
      else next_fetch nx)"
  "cpc (fst (fetch_stage c nx dfn)) =
     (if \<not> stop_fetch c \<and> dfn
      then ((if redirect_pending c then redirect_pc c else cpc c) + 1) AND (IMEM_SIZE - 1)
      else cpc c)"
  "redirect_pending (fst (fetch_stage c nx dfn)) =
     (if \<not> stop_fetch c \<and> dfn then False else redirect_pending c)"
  "stop_fetch (fst (fetch_stage c nx dfn)) =
     (stop_fetch c \<or> (dfn \<and> \<not> redirect_pending c
         \<and> op (decode_inst (imem c (cpc c)) (cpc c)) = OP_HALT))"
  by (auto simp add: fetch_stage_def Let_def)

lemma decode_hazard_regs: "regs (fst (decode_hazard c efn)) = decode_regs c"
  by (simp add: decode_regs_def)

lemma takes_redirect_cong:
  "decode c = decode c' \<Longrightarrow> regs c = regs c' \<Longrightarrow> takes_redirect c = takes_redirect c'"
  by (simp add: takes_redirect_def)

lemma decode_moves_valid: "decode_moves_of i c req \<Longrightarrow> d_valid (decode c)"
  by (simp add: decode_moves_of_def)

lemma pa_tail:
  "decode (fst (pipeline_advance i c req)) =
     (if f_valid (fetch c) \<and> (\<not> d_valid (decode c) \<or> decode_moves_of i c req)
      then \<lparr> d_valid = True, d_inst = f_inst (fetch c) \<rparr>
      else if \<not> d_valid (decode c) \<or> decode_moves_of i c req
      then (decode c)\<lparr>d_valid := False\<rparr> else decode c)"
  "exec (fst (pipeline_advance i c req)) =
     (if decode_moves_of i c req
      then \<lparr> e_valid = True, e_inst = d_inst (decode c),
             rs_val = decode_regs c (rs (d_inst (decode c))),
             rt_val = decode_regs c (rt (d_inst (decode c))),
             rd_val = decode_regs c (rd (d_inst (decode c))) \<rparr>
      else next_exec (fst (exec_stage (fst (mem_out i c req)) (fst (snd (mem_out i c req)))
                             (snd (snd (snd (mem_out i c req)))))))"
  "fetch (fst (pipeline_advance i c req)) =
     (if \<not> stop_fetch c \<and> (\<not> d_valid (decode c) \<or> decode_moves_of i c req)
      then \<lparr> f_valid = True,
             f_inst = decode_inst (imem c (fetch_addr_of i c req)) (fetch_addr_of i c req) \<rparr>
      else if f_valid (fetch c) \<and> (\<not> d_valid (decode c) \<or> decode_moves_of i c req)
      then (fetch c)\<lparr>f_valid := False\<rparr> else fetch c)"
  "cpc (fst (pipeline_advance i c req)) =
     (if \<not> stop_fetch c \<and> (\<not> d_valid (decode c) \<or> decode_moves_of i c req)
      then (fetch_addr_of i c req + 1) AND (IMEM_SIZE - 1) else cpc c)"
  "redirect_pending (fst (pipeline_advance i c req)) =
     (if \<not> stop_fetch c \<and> (\<not> d_valid (decode c) \<or> decode_moves_of i c req)
      then False else redirect_of i c req)"
  "redirect_pc (fst (pipeline_advance i c req)) = target_of i c req"
  "stop_fetch (fst (pipeline_advance i c req)) =
     (stop_fetch c \<or> ((\<not> d_valid (decode c) \<or> decode_moves_of i c req)
         \<and> \<not> redirect_of i c req \<and> op (decode_inst (imem c (cpc c)) (cpc c)) = OP_HALT))"
proof -
  let ?c1 = "fst (mem_out i c req)"
  let ?c2 = "fst (decode_hazard ?c1 (exec_free_of i c req))"
  have tr: "takes_redirect ?c2 = takes_redirect (c\<lparr>regs := decode_regs c\<rparr>)"
    by (rule takes_redirect_cong) (simp_all add: decode_regs_def)
  have dr: "regs ?c2 = decode_regs c"
    by (simp add: decode_regs_def)
  note s = pa_unfold Let_def fetch_stage_fields decode_move_fields tr dr
    redirect_of_def target_of_def fetch_addr_of_def
  show "decode (fst (pipeline_advance i c req)) =
     (if f_valid (fetch c) \<and> (\<not> d_valid (decode c) \<or> decode_moves_of i c req)
      then \<lparr> d_valid = True, d_inst = f_inst (fetch c) \<rparr>
      else if \<not> d_valid (decode c) \<or> decode_moves_of i c req
      then (decode c)\<lparr>d_valid := False\<rparr> else decode c)"
    by (auto simp add: s simp del: decode_hazard_frame(22))
  show "exec (fst (pipeline_advance i c req)) =
     (if decode_moves_of i c req
      then \<lparr> e_valid = True, e_inst = d_inst (decode c),
             rs_val = decode_regs c (rs (d_inst (decode c))),
             rt_val = decode_regs c (rt (d_inst (decode c))),
             rd_val = decode_regs c (rd (d_inst (decode c))) \<rparr>
      else next_exec (fst (exec_stage (fst (mem_out i c req)) (fst (snd (mem_out i c req)))
                             (snd (snd (snd (mem_out i c req)))))))"
  proof (cases "decode_moves_of i c req")
    case True
    with decode_moves_valid[OF True] show ?thesis
      by (simp add: pa_unfold Let_def fetch_stage_fields decode_move_fields decode_regs_def)
  next
    case False
    then show ?thesis by (simp add: s del: decode_hazard_frame(22))
  qed
  show "fetch (fst (pipeline_advance i c req)) =
     (if \<not> stop_fetch c \<and> (\<not> d_valid (decode c) \<or> decode_moves_of i c req)
      then \<lparr> f_valid = True,
             f_inst = decode_inst (imem c (fetch_addr_of i c req)) (fetch_addr_of i c req) \<rparr>
      else if f_valid (fetch c) \<and> (\<not> d_valid (decode c) \<or> decode_moves_of i c req)
      then (fetch c)\<lparr>f_valid := False\<rparr> else fetch c)"
    by (simp add: s del: decode_hazard_frame(22))
  show "cpc (fst (pipeline_advance i c req)) =
     (if \<not> stop_fetch c \<and> (\<not> d_valid (decode c) \<or> decode_moves_of i c req)
      then (fetch_addr_of i c req + 1) AND (IMEM_SIZE - 1) else cpc c)"
    by (simp add: s del: decode_hazard_frame(22))
  show "redirect_pending (fst (pipeline_advance i c req)) =
     (if \<not> stop_fetch c \<and> (\<not> d_valid (decode c) \<or> decode_moves_of i c req)
      then False else redirect_of i c req)"
    by (simp add: s del: decode_hazard_frame(22))
  show "redirect_pc (fst (pipeline_advance i c req)) = target_of i c req"
    by (simp add: s del: decode_hazard_frame(22))
  show "stop_fetch (fst (pipeline_advance i c req)) =
     (stop_fetch c \<or> ((\<not> d_valid (decode c) \<or> decode_moves_of i c req)
         \<and> \<not> redirect_of i c req \<and> op (decode_inst (imem c (cpc c)) (cpc c)) = OP_HALT))"
    by (simp add: s del: decode_hazard_frame(22))
qed

subsection \<open>The reserved registers\<close>

lemma dest_reg_reserved: "dest_reg inst \<noteq> 0" "dest_reg inst \<noteq> 1"
  by (simp_all add: dest_reg_def)

lemma wb_commit_regs:
  "regs (wb_commit c) 0 = regs c 0" "regs (wb_commit c) 1 = regs c 1"
  using dest_reg_reserved[of "w_inst (wb c)"]
  by (simp_all add: wb_commit_def Let_def)

lemma decode_regs_wb:
  "decode_regs (wb_commit c) 0 = regs c 0"
  "decode_regs (wb_commit c) 1 =
     (if d_valid (decode c) then imm (d_inst (decode c)) else regs c 1)"
  by (simp_all add: decode_regs_def wb_commit_regs)

lemma cycle_step_regs:
  assumes "i \<in> {0..3}"
  shows "regs (cores (cycle_step s) i) = decode_regs (wb_commit (cores s i))"
  using same_pipe_fields(1)[OF cycle_step_same_pipe[OF assms, of s]]
  by (simp add: pa_fields decode_regs_def)

lemma cycle_step_exec:
  assumes "i \<in> {0..3}" "decode_moves_of i (wb_commit (cores s i)) (requests s i)"
  shows "exec (cores (cycle_step s) i) =
     \<lparr> e_valid = True, e_inst = d_inst (decode (cores s i)),
       rs_val = decode_regs (wb_commit (cores s i)) (rs (d_inst (decode (cores s i)))),
       rt_val = decode_regs (wb_commit (cores s i)) (rt (d_inst (decode (cores s i)))),
       rd_val = decode_regs (wb_commit (cores s i)) (rd (d_inst (decode (cores s i)))) \<rparr>"
  using same_pipe_fields(4)[OF cycle_step_same_pipe[OF assms(1), of s]] assms(2)
  by (simp add: pa_tail)

lemma init_regs [simp]: "regs (init_core i im) = (\<lambda>_. 0)"
  by (simp add: init_core_def Let_def)

lemma reachable_R0:
  assumes "reachable s" "i \<in> {0..3}"
  shows "regs (cores s i) 0 = 0"
  using assms
proof (induction rule: reachable.induct)
  case (reach_init imems m)
  then show ?case by (simp add: init_sim_def)
next
  case (reach_step s)
  then show ?case by (simp add: cycle_step_regs decode_regs_wb)
qed

text \<open>
  Claim C8, as the code has it. In every reachable state R0 is 0, and no Writeback commit
  targets R0 or R1 (\<open>dest_reg\<close> is never 0 or 1; the commit leaves both registers as they
  are). R1 is written by the Decode stage: in a cycle at whose start Decode holds a valid
  instruction, R1 holds that instruction's immediate at the end of the cycle, and an
  operand with register index 1 that the instruction reads when it leaves Decode is that
  immediate; in a cycle at whose start Decode is empty, R1 is unchanged.
\<close>

theorem reserved_registers:
  assumes r: "reachable s" and i: "i \<in> {0..3}"
  shows "regs (cores s i) 0 = 0 \<and> regs (cores (cycle_step s) i) 0 = 0
       \<and> dest_reg (w_inst (wb (cores s i))) \<noteq> 0 \<and> dest_reg (w_inst (wb (cores s i))) \<noteq> 1
       \<and> regs (wb_commit (cores s i)) 0 = regs (cores s i) 0
       \<and> regs (wb_commit (cores s i)) 1 = regs (cores s i) 1
       \<and> (d_valid (decode (cores s i)) \<longrightarrow>
             regs (cores (cycle_step s) i) 1 = imm (d_inst (decode (cores s i)))
           \<and> (decode_moves_of i (wb_commit (cores s i)) (requests s i) \<longrightarrow>
                e_inst (exec (cores (cycle_step s) i)) = d_inst (decode (cores s i))
              \<and> (rs (d_inst (decode (cores s i))) = 1 \<longrightarrow>
                   rs_val (exec (cores (cycle_step s) i)) = imm (d_inst (decode (cores s i))))
              \<and> (rt (d_inst (decode (cores s i))) = 1 \<longrightarrow>
                   rt_val (exec (cores (cycle_step s) i)) = imm (d_inst (decode (cores s i))))
              \<and> (rd (d_inst (decode (cores s i))) = 1 \<longrightarrow>
                   rd_val (exec (cores (cycle_step s) i)) = imm (d_inst (decode (cores s i))))))
       \<and> (\<not> d_valid (decode (cores s i)) \<longrightarrow>
             regs (cores (cycle_step s) i) 1 = regs (cores s i) 1)"
proof -
  have z: "regs (cores s i) 0 = 0" using r i by (rule reachable_R0)
  have z': "regs (cores (cycle_step s) i) 0 = 0"
    using i z by (simp add: cycle_step_regs decode_regs_wb)
  have r1: "regs (cores (cycle_step s) i) 1 =
      (if d_valid (decode (cores s i)) then imm (d_inst (decode (cores s i)))
       else regs (cores s i) 1)"
    using i by (simp add: cycle_step_regs decode_regs_wb)
  have ex: "decode_moves_of i (wb_commit (cores s i)) (requests s i) \<Longrightarrow>
      d_valid (decode (cores s i)) \<Longrightarrow>
      e_inst (exec (cores (cycle_step s) i)) = d_inst (decode (cores s i))
      \<and> (rs (d_inst (decode (cores s i))) = 1 \<longrightarrow>
           rs_val (exec (cores (cycle_step s) i)) = imm (d_inst (decode (cores s i))))
      \<and> (rt (d_inst (decode (cores s i))) = 1 \<longrightarrow>
           rt_val (exec (cores (cycle_step s) i)) = imm (d_inst (decode (cores s i))))
      \<and> (rd (d_inst (decode (cores s i))) = 1 \<longrightarrow>
           rd_val (exec (cores (cycle_step s) i)) = imm (d_inst (decode (cores s i))))"
    using i by (simp add: cycle_step_exec decode_regs_wb)
  from z z' r1 ex show ?thesis
    by (simp add: dest_reg_reserved wb_commit_regs)
qed

lemma init_core_fields [simp]:
  "fetch (init_core i im) = \<lparr> f_valid = True, f_inst = decode_inst (im 0) 0 \<rparr>"
  "d_valid (decode (init_core i im)) = False" "w_valid (wb (init_core i im)) = False"
  "m_valid (mem (init_core i im)) = False" "e_valid (exec (init_core i im)) = False"
  "cdone (init_core i im) = False" "imem (init_core i im) = im"
  "cpc (init_core i im) = 1" "redirect_pending (init_core i im) = False"
  "stop_fetch (init_core i im) = (op (decode_inst (im 0) 0) = OP_HALT)"
  by (simp_all add: init_core_def Let_def zero_mem_stage_def IMEM_SIZE_def)

lemma wb_commit_invalid [simp]: "\<not> w_valid (wb c) \<Longrightarrow> wb_commit c = c"
  by (simp add: wb_commit_def)

lemma init_not_stopped: "\<not> stopped (init_sim imems m)"
  by (simp add: stopped_def all_done_def core_range_def init_sim_def)

lemma c8_facts:
  "reachable c8_state" "d_valid (decode (cores c8_state 0))"
  "imm (d_inst (decode (cores c8_state 0))) = 5" "regs (cores c8_state 0) 1 = 0"
proof -
  let ?s0 = "init_sim imem_five (\<lambda>_. 0)"
  have i: "(0::int) \<in> {0..3}" by simp
  show "reachable c8_state" unfolding c8_state_def
    by (rule reach_step[OF reach_init init_not_stopped])
  have c0: "cores ?s0 0 = init_core 0 (imem_five 0)" by (simp add: init_sim_def)
  have d: "decode (cores c8_state 0) = \<lparr> d_valid = True, d_inst = decode_inst 5 0 \<rparr>"
    unfolding c8_state_def
    using same_pipe_fields(2)[OF cycle_step_same_pipe[OF i, of ?s0]]
    by (simp add: c0 pa_tail imem_five_def)
  show "d_valid (decode (cores c8_state 0))" by (simp add: d)
  show "imm (d_inst (decode (cores c8_state 0))) = 5"
    by (simp add: d decode_inst_def sign_extend_def)
  show "regs (cores c8_state 0) 1 = 0"
    unfolding c8_state_def by (simp add: cycle_step_regs c0 decode_regs_def)
qed

theorem reserved_registers_witness:
  "reachable c8_state \<and> (0::int) \<in> {0..3} \<and> d_valid (decode (cores c8_state 0))
   \<and> regs (cores c8_state 0) 0 = 0 \<and> regs (cores (cycle_step c8_state) 0) 1 = 5"
  using reserved_registers [of c8_state 0] c8_facts by simp

text \<open>
  Claim C8 as stated fails at a cycle boundary: after the first cycle of this run the
  Decode latch of core 0 holds an instruction with immediate 5 while R1 is still 0.
\<close>

theorem r1_lags_decode_latch:
  "reachable c8_state \<and> d_valid (decode (cores c8_state 0))
   \<and> imm (d_inst (decode (cores c8_state 0))) = 5
   \<and> regs (cores c8_state 0) 1 \<noteq> imm (d_inst (decode (cores c8_state 0)))"
  using c8_facts by simp

subsection \<open>Branch resolution and the delay slot\<close>

lemma and_1023_mod: "(x::int) AND 0x3FF = x mod 1024"
proof -
  have "x AND mask 10 = x mod 2 ^ 10" by (simp add: take_bit_eq_mod flip: take_bit_eq_mask)
  then show ?thesis by (simp add: mask_eq_exp_minus_1)
qed

lemma uint_and_1023: "uint ((w::u32) AND 0x3FF) = uint w mod 1024"
proof -
  have m: "(0x3FF::u32) = mask 10" by (simp add: mask_eq_exp_minus_1)
  show ?thesis unfolding m
    apply (simp flip: take_bit_eq_mask)
    apply (simp add: unsigned_take_bit_eq take_bit_eq_mod uint_mod_distrib)
    done
qed

lemma decode_inst_pc [simp]: "pc (decode_inst w p) = p"
  by (simp add: decode_inst_def)

lemma cycle_step_tail:
  assumes i: "i \<in> {0..3}"
  shows "decode (cores (cycle_step s) i) =
           decode (fst (pipeline_advance i (wb_commit (cores s i)) (requests s i)))"
    "fetch (cores (cycle_step s) i) =
           fetch (fst (pipeline_advance i (wb_commit (cores s i)) (requests s i)))"
    "cpc (cores (cycle_step s) i) =
           cpc (fst (pipeline_advance i (wb_commit (cores s i)) (requests s i)))"
    "redirect_pending (cores (cycle_step s) i) =
           redirect_pending (fst (pipeline_advance i (wb_commit (cores s i)) (requests s i)))"
    "redirect_pc (cores (cycle_step s) i) =
           redirect_pc (fst (pipeline_advance i (wb_commit (cores s i)) (requests s i)))"
    "stop_fetch (cores (cycle_step s) i) =
           stop_fetch (fst (pipeline_advance i (wb_commit (cores s i)) (requests s i)))"
    "imem (cores (cycle_step s) i) = imem (cores s i)"
  using same_pipe_fields[OF cycle_step_same_pipe[OF i, of s]]
  by (simp_all add: pa_fields)

lemma reachable_pc:
  assumes "reachable s" "i \<in> {0..3}"
  shows "f_valid (fetch (cores s i)) \<longrightarrow>
         cpc (cores s i) = (pc (f_inst (fetch (cores s i))) + 1) mod 1024"
  using assms
proof (induction rule: reachable.induct)
  case (reach_init imems m)
  then show ?case by (simp add: init_sim_def)
next
  case (reach_step s)
  then show ?case
    by (simp add: cycle_step_tail pa_tail IMEM_SIZE_def and_1023_mod)
qed

text \<open>
  Claim C4, as the code has it. When a taken conditional branch or a \<open>JAL\<close> leaves Decode
  (the comparison evaluated on the register values read that cycle, R1 being the
  immediate): \<open>redirect_pc\<close> is set to \<open>regs[rd] mod 1024\<close> read the same way; the branch
  goes to Execute; the instruction that is in the Fetch latch, whatever its address, moves
  to Decode in that cycle (the delay slot); and, when fetch is not stopped, the instruction
  at \<open>redirect_pc\<close> is fetched in that same cycle, pc becomes \<open>redirect_pc + 1 mod 1024\<close>
  and the redirect latch is cleared (with fetch stopped, the redirect stays pending and
  nothing is fetched). The instruction in Fetch is the one at the branch's pc + 1 when the
  branch itself entered Decode in a cycle without redirect: in such a cycle the
  instruction fetched is the one at the pc of the instruction leaving Fetch, plus 1.
\<close>

theorem branch_redirect:
  assumes r: "reachable s" and i: "i \<in> {0..3}"
  shows "(d_valid (decode (cores s i))
          \<and> decode_moves_of i (wb_commit (cores s i)) (requests s i)
          \<and> takes_redirect ((wb_commit (cores s i))\<lparr>regs := decode_regs (wb_commit (cores s i))\<rparr>)
          \<longrightarrow>
            redirect_pc (cores (cycle_step s) i) =
              uint (decode_regs (wb_commit (cores s i)) (rd (d_inst (decode (cores s i))))) mod 1024
          \<and> e_valid (exec (cores (cycle_step s) i))
          \<and> e_inst (exec (cores (cycle_step s) i)) = d_inst (decode (cores s i))
          \<and> (f_valid (fetch (cores s i)) \<longrightarrow>
                decode (cores (cycle_step s) i) =
                  \<lparr> d_valid = True, d_inst = f_inst (fetch (cores s i)) \<rparr>)
          \<and> (\<not> stop_fetch (cores s i) \<longrightarrow>
                fetch (cores (cycle_step s) i) =
                  \<lparr> f_valid = True,
                    f_inst = decode_inst
                      (imem (cores s i) (redirect_pc (cores (cycle_step s) i)))
                      (redirect_pc (cores (cycle_step s) i)) \<rparr>
              \<and> cpc (cores (cycle_step s) i) = (redirect_pc (cores (cycle_step s) i) + 1) mod 1024
              \<and> \<not> redirect_pending (cores (cycle_step s) i))
          \<and> (stop_fetch (cores s i) \<longrightarrow>
                redirect_pending (cores (cycle_step s) i)
              \<and> \<not> f_valid (fetch (cores (cycle_step s) i))))
       \<and> (f_valid (fetch (cores s i)) \<and> \<not> stop_fetch (cores s i)
          \<and> (\<not> d_valid (decode (cores s i))
               \<or> decode_moves_of i (wb_commit (cores s i)) (requests s i))
          \<and> \<not> redirect_of i (wb_commit (cores s i)) (requests s i)
          \<longrightarrow>
            decode (cores (cycle_step s) i) =
              \<lparr> d_valid = True, d_inst = f_inst (fetch (cores s i)) \<rparr>
          \<and> f_valid (fetch (cores (cycle_step s) i))
          \<and> pc (f_inst (fetch (cores (cycle_step s) i))) =
                (pc (f_inst (fetch (cores s i))) + 1) mod 1024)"
proof (intro conjI impI)
  let ?c = "wb_commit (cores s i)"
  assume h: "d_valid (decode (cores s i))
          \<and> decode_moves_of i ?c (requests s i)
          \<and> takes_redirect (?c\<lparr>regs := decode_regs ?c\<rparr>)"
  then have dm: "decode_moves_of i ?c (requests s i)"
    and tr: "takes_redirect (?c\<lparr>regs := decode_regs ?c\<rparr>)" by simp_all
  have ro: "redirect_of i ?c (requests s i)" using dm tr by (simp add: redirect_of_def)
  have tg: "target_of i ?c (requests s i) =
      uint (decode_regs ?c (rd (d_inst (decode (cores s i))))) mod 1024"
    using dm tr by (simp add: target_of_def uint_and_1023)
  have fa: "fetch_addr_of i ?c (requests s i) = target_of i ?c (requests s i)"
    using ro by (simp add: fetch_addr_of_def)
  show "redirect_pc (cores (cycle_step s) i) =
      uint (decode_regs ?c (rd (d_inst (decode (cores s i))))) mod 1024"
    using i by (simp add: cycle_step_tail pa_tail tg)
  show "e_valid (exec (cores (cycle_step s) i))"
    using i dm by (simp add: cycle_step_exec)
  show "e_inst (exec (cores (cycle_step s) i)) = d_inst (decode (cores s i))"
    using i dm by (simp add: cycle_step_exec)
  show "decode (cores (cycle_step s) i) = \<lparr> d_valid = True, d_inst = f_inst (fetch (cores s i)) \<rparr>"
    if "f_valid (fetch (cores s i))"
    using i dm that by (simp add: cycle_step_tail pa_tail)
  show "fetch (cores (cycle_step s) i) =
          \<lparr> f_valid = True,
            f_inst = decode_inst (imem (cores s i) (redirect_pc (cores (cycle_step s) i)))
                      (redirect_pc (cores (cycle_step s) i)) \<rparr>"
    if "\<not> stop_fetch (cores s i)"
    using i dm that by (simp add: cycle_step_tail pa_tail fa)
  show "cpc (cores (cycle_step s) i) = (redirect_pc (cores (cycle_step s) i) + 1) mod 1024"
    if "\<not> stop_fetch (cores s i)"
    using i dm that by (simp add: cycle_step_tail pa_tail fa IMEM_SIZE_def and_1023_mod)
  show "\<not> redirect_pending (cores (cycle_step s) i)" if "\<not> stop_fetch (cores s i)"
    using i dm that by (simp add: cycle_step_tail pa_tail)
  show "redirect_pending (cores (cycle_step s) i)" if "stop_fetch (cores s i)"
    using i dm that ro by (simp add: cycle_step_tail pa_tail)
  show "\<not> f_valid (fetch (cores (cycle_step s) i))" if "stop_fetch (cores s i)"
    using i dm that by (simp add: cycle_step_tail pa_tail)
next
  let ?c = "wb_commit (cores s i)"
  assume h: "f_valid (fetch (cores s i)) \<and> \<not> stop_fetch (cores s i)
          \<and> (\<not> d_valid (decode (cores s i)) \<or> decode_moves_of i ?c (requests s i))
          \<and> \<not> redirect_of i ?c (requests s i)"
  then have fa: "fetch_addr_of i ?c (requests s i) = cpc (cores s i)"
    by (simp add: fetch_addr_of_def)
  from reachable_pc[OF r i] h have pcv:
    "cpc (cores s i) = (pc (f_inst (fetch (cores s i))) + 1) mod 1024" by simp
  show "decode (cores (cycle_step s) i) = \<lparr> d_valid = True, d_inst = f_inst (fetch (cores s i)) \<rparr>"
    using i h by (simp add: cycle_step_tail pa_tail)
  show "f_valid (fetch (cores (cycle_step s) i))"
    using i h by (simp add: cycle_step_tail pa_tail)
  show "pc (f_inst (fetch (cores (cycle_step s) i))) =
          (pc (f_inst (fetch (cores s i))) + 1) mod 1024"
    using i h by (simp add: cycle_step_tail pa_tail fa pcv)
qed

lemma pa_cdone:
  "\<not> halted c \<Longrightarrow> cdone (fst (pipeline_advance i c req)) = cdone c"
  by (simp add: pa_unfold Let_def latch_def mem_out_def)

lemma pa_idle:
  assumes "\<not> m_valid (mem c)" "\<not> e_valid (exec c)"
  shows "mem (fst (pipeline_advance i c req)) = mem c"
    "w_valid (wb (fst (pipeline_advance i c req))) = False"
    "snd (pipeline_advance i c req) = req"
  using assms
  by (simp_all add: pa_fields mem_out_def mem_stage_invalid exec_stage_def)

lemma pa_mem_invalid:
  assumes "\<not> m_valid (mem c)"
  shows "w_valid (wb (fst (pipeline_advance i c req))) = False"
    "exec_free_of i c req"
  using assms by (simp_all add: pa_fields mem_out_def mem_stage_invalid exec_free_of_def)

lemma not_done_not_stopped: "\<not> cdone (cores s 0) \<Longrightarrow> \<not> stopped s"
  by (simp add: stopped_def all_done_def core_range_def)

lemma cycle_step_rest:
  assumes i: "i \<in> {0..3}"
  shows "exec (cores (cycle_step s) i) =
           exec (fst (pipeline_advance i (wb_commit (cores s i)) (requests s i)))"
    "wb (cores (cycle_step s) i) =
           wb (fst (pipeline_advance i (wb_commit (cores s i)) (requests s i)))"
    "m_valid (mem (cores (cycle_step s) i)) =
           m_valid (mem (fst (pipeline_advance i (wb_commit (cores s i)) (requests s i))))"
    "cdone (cores (cycle_step s) i) =
           cdone (fst (pipeline_advance i (wb_commit (cores s i)) (requests s i)))"
    "halted (cores (cycle_step s) i) = halted (wb_commit (cores s i))"
  using same_pipe_fields[OF cycle_step_same_pipe[OF i, of s]]
  by (simp_all add: pa_fields)

lemma jal_words:
  "decode_inst 0x0F100005 p =
     \<lparr> raw = 0x0F100005, op = 15, rd = 1, rs = 0, rt = 0, imm = 5, pc = p \<rparr>"
  "decode_inst 0x0F100009 p =
     \<lparr> raw = 0x0F100009, op = 15, rd = 1, rs = 0, rt = 0, imm = 9, pc = p \<rparr>"
  by (simp_all add: decode_inst_def sign_extend_def)

lemma jal_no_hazard:
  "op (d_inst (decode c)) = 15 \<Longrightarrow> rd (d_inst (decode c)) = 1 \<Longrightarrow> \<not> data_hazard c"
  by (simp add: data_hazard_def source_regs_def hazard_iter_def op_defs)

lemma jal_redirects:
  "op (d_inst (decode c)) = 15 \<Longrightarrow> takes_redirect c"
  by (simp add: takes_redirect_def op_defs)

lemma c4_core1:
  "decode (cores c4_state1 0) = \<lparr> d_valid = True, d_inst = decode_inst 0x0F100005 0 \<rparr>"
  "fetch (cores c4_state1 0) = \<lparr> f_valid = True, f_inst = decode_inst 0x0F100009 1 \<rparr>"
  "cpc (cores c4_state1 0) = 2" "\<not> e_valid (exec (cores c4_state1 0))"
  "\<not> m_valid (mem (cores c4_state1 0))" "\<not> w_valid (wb (cores c4_state1 0))"
  "regs (cores c4_state1 0) = (\<lambda>_. 0)" "\<not> redirect_pending (cores c4_state1 0)"
  "\<not> stop_fetch (cores c4_state1 0)" "imem (cores c4_state1 0) = c4_imem 0"
  "\<not> cdone (cores c4_state1 0)" "\<not> halted (cores c4_state1 0)"
  "reachable c4_state1"
proof -
  let ?s0 = "init_sim c4_imem (\<lambda>_. 0)"
  have i: "(0::int) \<in> {0..3}" by simp
  have c0: "cores ?s0 0 = init_core 0 (c4_imem 0)" by (simp add: init_sim_def)
  have h0: "\<not> halted (init_core 0 (c4_imem 0))" by (simp add: init_core_def Let_def)
  have op0: "op (decode_inst (c4_imem 0 0) 0) \<noteq> OP_HALT"
    "op (decode_inst (c4_imem 0 1) 1) \<noteq> OP_HALT"
    by (simp_all add: c4_imem_def jal_words op_defs)
  note s = c4_state1_def cycle_step_tail[OF i] cycle_step_rest[OF i] cycle_step_regs[OF i] c0
    pa_tail pa_idle pa_cdone h0 fetch_addr_of_def redirect_of_def decode_moves_of_def op0
  show "decode (cores c4_state1 0) = \<lparr> d_valid = True, d_inst = decode_inst 0x0F100005 0 \<rparr>"
    by (simp add: s c4_imem_def jal_words op_defs)
  show "fetch (cores c4_state1 0) = \<lparr> f_valid = True, f_inst = decode_inst 0x0F100009 1 \<rparr>"
    by (simp add: s c4_imem_def jal_words op_defs)
  show "cpc (cores c4_state1 0) = 2" by (simp add: s IMEM_SIZE_def c4_imem_def jal_words op_defs)
  show "\<not> e_valid (exec (cores c4_state1 0))" by (simp add: s pa_fields mem_out_def mem_stage_invalid exec_stage_def)
  show "\<not> m_valid (mem (cores c4_state1 0))" by (simp add: s c4_imem_def jal_words op_defs)
  show "\<not> w_valid (wb (cores c4_state1 0))" by (simp add: s c4_imem_def jal_words op_defs)
  show "regs (cores c4_state1 0) = (\<lambda>_. 0)" by (simp add: s decode_regs_def)
  show "\<not> redirect_pending (cores c4_state1 0)" by (simp add: s c4_imem_def jal_words op_defs)
  show "\<not> stop_fetch (cores c4_state1 0)" by (simp add: s c4_imem_def jal_words op_defs)
  show "imem (cores c4_state1 0) = c4_imem 0" by (simp add: s c4_imem_def jal_words op_defs)
  show "\<not> cdone (cores c4_state1 0)" by (simp add: s c4_imem_def jal_words op_defs)
  show "\<not> halted (cores c4_state1 0)" by (simp add: s h0)
  show "reachable c4_state1" unfolding c4_state1_def
    by (rule reach_step[OF reach_init init_not_stopped])
qed

lemma c4_moves1:
  "decode_moves_of 0 (wb_commit (cores c4_state1 0)) (requests c4_state1 0)"
  "takes_redirect ((wb_commit (cores c4_state1 0))
                     \<lparr>regs := decode_regs (wb_commit (cores c4_state1 0))\<rparr>)"
  "target_of 0 (wb_commit (cores c4_state1 0)) (requests c4_state1 0) = 5"
proof -
  have w: "wb_commit (cores c4_state1 0) = cores c4_state1 0"
    by (simp add: c4_core1)
  show dm: "decode_moves_of 0 (wb_commit (cores c4_state1 0)) (requests c4_state1 0)"
    unfolding w decode_moves_of_def
    by (simp add: c4_core1 jal_words jal_no_hazard pa_mem_invalid)
  show tr: "takes_redirect ((wb_commit (cores c4_state1 0))
                     \<lparr>regs := decode_regs (wb_commit (cores c4_state1 0))\<rparr>)"
    unfolding w by (rule jal_redirects) (simp add: c4_core1 jal_words)
  show "target_of 0 (wb_commit (cores c4_state1 0)) (requests c4_state1 0) = 5"
    using dm tr unfolding target_of_def
    by (simp add: w c4_core1 jal_words decode_regs_def)
qed

lemma c4_core2:
  "decode (cores c4_state 0) = \<lparr> d_valid = True, d_inst = decode_inst 0x0F100009 1 \<rparr>"
  "fetch (cores c4_state 0) = \<lparr> f_valid = True, f_inst = decode_inst 0 5 \<rparr>"
  "e_valid (exec (cores c4_state 0))"
  "\<not> m_valid (mem (cores c4_state 0))" "\<not> w_valid (wb (cores c4_state 0))"
  "reachable c4_state"
proof -
  have i: "(0::int) \<in> {0..3}" by simp
  have w: "wb_commit (cores c4_state1 0) = cores c4_state1 0"
    by (simp add: c4_core1)
  have ro: "redirect_of 0 (wb_commit (cores c4_state1 0)) (requests c4_state1 0)"
    using c4_moves1 by (simp add: redirect_of_def)
  note s = c4_state_def cycle_step_tail[OF i] cycle_step_rest[OF i] pa_tail c4_moves1
    fetch_addr_of_def ro
  show "decode (cores c4_state 0) = \<lparr> d_valid = True, d_inst = decode_inst 0x0F100009 1 \<rparr>"
    by (simp add: s) (simp add: w c4_core1)
  show "fetch (cores c4_state 0) = \<lparr> f_valid = True, f_inst = decode_inst 0 5 \<rparr>"
    by (simp add: s) (simp add: w c4_core1 c4_imem_def)
  show "e_valid (exec (cores c4_state 0))" by (simp add: s)
  show "\<not> m_valid (mem (cores c4_state 0))"
    by (simp add: c4_state_def cycle_step_rest[OF i] w pa_idle c4_core1)
  show "\<not> w_valid (wb (cores c4_state 0))"
    by (simp add: c4_state_def cycle_step_rest[OF i] w pa_idle c4_core1)
  show "reachable c4_state" unfolding c4_state_def
    by (rule reach_step[OF c4_core1(13) not_done_not_stopped[OF c4_core1(11)]])
qed

lemma c4_moves2:
  "decode_moves_of 0 (wb_commit (cores c4_state 0)) (requests c4_state 0)"
proof -
  have w: "wb_commit (cores c4_state 0) = cores c4_state 0"
    by (simp add: c4_core2)
  show ?thesis unfolding w decode_moves_of_def
    by (simp add: c4_core2 jal_words jal_no_hazard pa_mem_invalid)
qed

theorem branch_redirect_witness:
  "reachable c4_state1 \<and> (0::int) \<in> {0..3} \<and> d_valid (decode (cores c4_state1 0))
   \<and> decode_moves_of 0 (wb_commit (cores c4_state1 0)) (requests c4_state1 0)
   \<and> takes_redirect ((wb_commit (cores c4_state1 0))
                        \<lparr>regs := decode_regs (wb_commit (cores c4_state1 0))\<rparr>)
   \<and> f_valid (fetch (cores c4_state1 0)) \<and> \<not> stop_fetch (cores c4_state1 0)
   \<and> redirect_pc (cores c4_state 0) = 5
   \<and> decode (cores c4_state 0) = \<lparr> d_valid = True, d_inst = decode_inst 0x0F100009 1 \<rparr>
   \<and> cpc (cores c4_state 0) = 6"
  using branch_redirect [of c4_state1 0] c4_moves1 c4_core1
  by (simp add: c4_state_def [symmetric] jal_words decode_regs_def)

text \<open>
  Claim C4 as stated fails for a jump that sits in the delay slot of a taken jump: two
  cycles into this run the \<open>JAL\<close> of address 1 is in Decode and leaves it, and the
  instruction in Fetch, its delay slot, is the one at address 5 (the first jump's target),
  not the one at address 2.
\<close>

theorem delay_slot_not_at_next_pc:
  "reachable c4_state \<and> d_valid (decode (cores c4_state 0))
   \<and> op (d_inst (decode (cores c4_state 0))) = OP_JAL
   \<and> pc (d_inst (decode (cores c4_state 0))) = 1
   \<and> decode_moves_of 0 (wb_commit (cores c4_state 0)) (requests c4_state 0)
   \<and> f_valid (fetch (cores c4_state 0))
   \<and> pc (f_inst (fetch (cores c4_state 0))) = 5
   \<and> pc (f_inst (fetch (cores c4_state 0)))
       \<noteq> (pc (d_inst (decode (cores c4_state 0))) + 1) mod 1024"
  using c4_core2 c4_moves2 by (simp add: jal_words op_defs)

end
